theory Spec2Isabelle
  imports Complex_Main "HOL-Library.Word" "HOL-Library.Log_Nat"
begin

section \<open>Data model\<close>

text \<open>
  The Bitcoin logic of the wallet lives in two near-duplicate modules: a mainnet-only
  one and a network-parameterised one.  Both are embedded here.

  Satoshi amounts (\<open>amountSats\<close>, \<open>utxo.value\<close>, \<open>totalInput\<close>) are integral JavaScript
  numbers far below \<open>2^53\<close>, where sums and differences are exact; they are modelled as
  \<^typ>\<open>int\<close>.  The fee rate is a finite double, given by the rational it denotes.  The
  fee estimate and the unit conversions are computed with the rounding of
  double-precision numbers.

  \<open>bitcoinjs-lib\<close>, \<open>ecpair\<close> and the random generator are not part of the repository.
  The checks of theirs that decide which branch the code takes are modelled (\<open>p2tr\<close>,
  \<open>addInput\<close>, \<open>signInput\<close>, ...); what they compute (elliptic-curve arithmetic,
  hashes, encodings, signatures, random bytes) is left open: these functions are the
  fields of the record \<open>library\<close>, and every theorem holds for every \<open>library\<close>.
\<close>

type_synonym bytes = "8 word list"

datatype BitcoinNetwork = mainnet | testnet | testnet4

text \<open>The two network objects of bitcoinjs-lib that the code refers to.\<close>

datatype Network = networks_bitcoin | networks_testnet

text \<open>
  A JavaScript number: a finite double, given by the rational it denotes, an infinity
  or NaN; the two zeros are not distinguished.
\<close>

datatype number = Finite rat | PosInfinity | NegInfinity | NaN

text \<open>
  Exceptions.  A throw inside the libraries or the language carries its message; the
  two errors the modules raise themselves are \<open>Failed to generate change address\<close> and
  \<open>Insufficient funds. Need N sats, have M sats\<close>, where \<open>N\<close> is the number
  \<open>amountSats + estimatedFee\<close> and \<open>M\<close> is \<open>totalInput\<close>.
\<close>

datatype error =
    LibraryError string
  | ChangeAddressError
  | InsufficientFunds number int

record utxo_status =
  confirmed :: bool
  block_height :: "int option"
  block_hash :: "string option"
  block_time :: "int option"

record UTXO =
  txid :: string
  vout :: int
  utxo_value :: int
  status :: utxo_status

text \<open>The result of \<open>bitcoin.payments.p2tr\<close>; its fields are optional.\<close>

record payment =
  address :: "string option"
  script_output :: "bytes option"

record keyPair =
  privateKey :: bytes
  publicKey :: bytes

record psbt_input =
  hash :: string
  index :: int
  witnessUtxo_script :: "bytes option"
  witnessUtxo_value :: int
  tapInternalKey :: bytes
  tapKeySig :: "bytes option"
  finalScriptWitness :: "bytes option"

record psbt_output =
  out_address :: string
  out_value :: int

record Psbt =
  psbt_network :: Network
  inputs :: "psbt_input list"
  outputs :: "psbt_output list"

record Transaction =
  ins :: "psbt_input list"
  outs :: "psbt_output list"

record tx_result =
  txHex :: string
  fee :: number

text \<open>
  Mutable state: the ECC backend slot of bitcoinjs-lib, filled by \<open>bitcoin.initEccLib\<close>;
  the module variable \<open>ECPair\<close>, which is \<open>null\<close> until \<open>getECPair\<close> runs; and the
  random generator of the platform, of which the model records how many values have
  been drawn from it.  The two modules are alternatives, an application loads one of
  them.
\<close>

record runtime =
  eccLib :: bool
  ECPair :: bool
  drawn :: nat

text \<open>
  The external functions.  A function that can throw returns the message on the left.
  \<open>tweakKey\<close> is the Taproot output key of an internal key, absent when the 32 bytes
  are not the x coordinate of a curve point; \<open>bech32m_encode\<close> makes the address of a
  prefix and an output key.  \<open>randomBytes k\<close> is the value that the random generator
  returns when it is asked for the \<open>k\<close>-th time; nothing is assumed about it.
  \<open>signTaproot\<close> makes the Schnorr signature of an input from the signer's key and the
  auxiliary random data.  The checks that \<open>Psbt.addInput\<close>, \<open>Psbt.addOutput\<close> and
  \<open>Psbt.extractTransaction\<close> perform return the message of the exception they throw,
  if any.
\<close>

record library =
  tweakKey :: "bytes \<Rightarrow> bytes option"
  bech32m_encode :: "string \<Rightarrow> bytes \<Rightarrow> string"
  fromPrivateKey :: "bytes \<Rightarrow> string + keyPair"
  taggedHash :: "string \<Rightarrow> bytes \<Rightarrow> bytes"
  tweak :: "keyPair \<Rightarrow> bytes \<Rightarrow> string + keyPair"
  checkInput :: "Psbt \<Rightarrow> psbt_input \<Rightarrow> string option"
  checkOutput :: "Psbt \<Rightarrow> psbt_output \<Rightarrow> string option"
  randomBytes :: "nat \<Rightarrow> bytes"
  signTaproot :: "Psbt \<Rightarrow> nat \<Rightarrow> keyPair \<Rightarrow> bytes \<Rightarrow> string + bytes"
  finalizeTaproot :: "Psbt \<Rightarrow> string + bytes list"
  checkFees :: "Psbt \<Rightarrow> string option"
  toHex :: "Transaction \<Rightarrow> string"

section \<open>Exceptions and state\<close>

definition bindE :: "error + 'a \<Rightarrow> ('a \<Rightarrow> error + 'b) \<Rightarrow> error + 'b" where
  "bindE m f = (case m of Inl e \<Rightarrow> Inl e | Inr v \<Rightarrow> f v)"

definition thrown :: "string + 'a \<Rightarrow> error + 'a" where
  "thrown r = (case r of Inl msg \<Rightarrow> Inl (LibraryError msg) | Inr v \<Rightarrow> Inr v)"

definition try_catch :: "error + 'a \<Rightarrow> (error \<Rightarrow> error + 'a) \<Rightarrow> error + 'a" where
  "try_catch body handler = (case body of Inl e \<Rightarrow> handler e | Inr v \<Rightarrow> Inr v)"

text \<open>
  Sequencing of steps that may throw and may change the state: a step yields its
  result and the state it leaves; after a throw the rest is skipped.
\<close>

definition bindS ::
  "(error + 'a) \<times> runtime \<Rightarrow> ('a \<Rightarrow> runtime \<Rightarrow> (error + 'b) \<times> runtime) \<Rightarrow> (error + 'b) \<times> runtime" where
  "bindS m f = (case fst m of Inl e \<Rightarrow> (Inl e, snd m) | Inr v \<Rightarrow> f v (snd m))"

section \<open>JavaScript numbers\<close>

text \<open>The binary exponent of \<open>x > 0\<close>: the \<open>e\<close> with \<open>2^e \<le> x < 2^(e+1)\<close>.\<close>

definition ilog2 :: "rat \<Rightarrow> int" where
  "ilog2 x = (if 1 \<le> x then bitlen \<lfloor>x\<rfloor> - 1 else - bitlen (\<lceil>1 / x\<rceil> - 1))"

text \<open>Rounding to the nearest integer, a tie going to the even one.\<close>

definition round_half_even :: "rat \<Rightarrow> int" where
  "round_half_even y =
     (let f = \<lfloor>y\<rfloor>; r = y - of_int f
      in if r < 1 / 2 then f else if 1 / 2 < r then f + 1 else if even f then f else f + 1)"

text \<open>
  The double nearest to a rational: 53 significant bits, exponents from \<open>-1022\<close> to
  \<open>1023\<close>, subnormal numbers below, an infinity when the rounded value has a larger
  exponent.  This is also how a decimal literal or \<open>parseFloat\<close> reads a decimal amount.
\<close>

definition round_to_double :: "rat \<Rightarrow> number" where
  "round_to_double x =
     (if x = 0 then Finite 0
      else
        let e = max (ilog2 \<bar>x\<bar>) (- 1022);
            ulp = 2 powi (e - 52);
            y = of_int (round_half_even (x / ulp)) * ulp
        in if ilog2 \<bar>y\<bar> \<le> 1023 then Finite y
           else if 0 < x then PosInfinity else NegInfinity)"

text \<open>
  Multiplication and addition of numbers; \<open>x / c\<close> for a finite double \<open>c > 0\<close> (the
  code divides by \<open>100000000\<close> only); the comparison \<open>x < y\<close>, which is false when
  either side is NaN; \<open>Math.round\<close>, which rounds a tie upwards, and \<open>Math.ceil\<close>.
\<close>

fun js_times :: "number \<Rightarrow> number \<Rightarrow> number" where
  "js_times (Finite a) (Finite b) = round_to_double (a * b)"
| "js_times NaN y = NaN"
| "js_times x NaN = NaN"
| "js_times (Finite a) y =
     (if a = 0 then NaN else if (0 < a) = (y = PosInfinity) then PosInfinity else NegInfinity)"
| "js_times x (Finite b) =
     (if b = 0 then NaN else if (0 < b) = (x = PosInfinity) then PosInfinity else NegInfinity)"
| "js_times x y = (if x = y then PosInfinity else NegInfinity)"

fun js_plus :: "number \<Rightarrow> number \<Rightarrow> number" where
  "js_plus (Finite a) (Finite b) = round_to_double (a + b)"
| "js_plus NaN y = NaN"
| "js_plus x NaN = NaN"
| "js_plus (Finite a) y = y"
| "js_plus x (Finite b) = x"
| "js_plus x y = (if x = y then x else NaN)"

definition js_divide :: "number \<Rightarrow> rat \<Rightarrow> number" where
  "js_divide x c =
     (case x of
        Finite a \<Rightarrow> round_to_double (a / c)
      | PosInfinity \<Rightarrow> PosInfinity
      | NegInfinity \<Rightarrow> NegInfinity
      | NaN \<Rightarrow> NaN)"

fun js_less :: "number \<Rightarrow> number \<Rightarrow> bool" where
  "js_less (Finite a) (Finite b) = (a < b)"
| "js_less NaN y = False"
| "js_less x NaN = False"
| "js_less (Finite a) y = (y = PosInfinity)"
| "js_less x (Finite b) = (x = NegInfinity)"
| "js_less x y = (x = NegInfinity \<and> y = PosInfinity)"

definition Math_round :: "number \<Rightarrow> number" where
  "Math_round x = (case x of Finite a \<Rightarrow> Finite (of_int \<lfloor>a + 1 / 2\<rfloor>) | _ \<Rightarrow> x)"

definition Math_ceil :: "number \<Rightarrow> number" where
  "Math_ceil x = (case x of Finite a \<Rightarrow> Finite (of_int \<lceil>a\<rceil>) | _ \<Rightarrow> x)"

text \<open>
  An integral amount of satoshis plus or minus a number, as in
  \<open>amountSats + estimatedFee\<close> and \<open>totalInput - amountSats - estimatedFee\<close>.  The
  fee is an integer when it is finite, and sums and differences of integers below
  \<open>2^53\<close> are exact; the rounding of larger sums is not modelled.
\<close>

definition sats_plus :: "int \<Rightarrow> number \<Rightarrow> number" where
  "sats_plus a x =
     (case x of
        Finite v \<Rightarrow> Finite (of_int a + v)
      | PosInfinity \<Rightarrow> PosInfinity
      | NegInfinity \<Rightarrow> NegInfinity
      | NaN \<Rightarrow> NaN)"

definition sats_minus :: "int \<Rightarrow> number \<Rightarrow> number" where
  "sats_minus a x =
     (case x of
        Finite v \<Rightarrow> Finite (of_int a - v)
      | PosInfinity \<Rightarrow> NegInfinity
      | NegInfinity \<Rightarrow> PosInfinity
      | NaN \<Rightarrow> NaN)"

text \<open>\<open>BigInt(x)\<close> throws a \<open>RangeError\<close> unless \<open>x\<close> is an integer.\<close>

definition BigInt :: "number \<Rightarrow> error + int" where
  "BigInt x =
     (case x of
        Finite v \<Rightarrow>
          if of_int \<lfloor>v\<rfloor> = v then Inr \<lfloor>v\<rfloor>
          else Inl (LibraryError ''RangeError: The number cannot be converted to a BigInt'')
      | _ \<Rightarrow> Inl (LibraryError ''RangeError: The number cannot be converted to a BigInt''))"

text \<open>The decimal digits of a non-negative integer.\<close>

function digits :: "int \<Rightarrow> string" where
  "digits n =
     (if n < 10 then [''0123456789'' ! nat n]
      else digits (n div 10) @ [''0123456789'' ! nat (n mod 10)])"
  by pat_completeness auto
termination
  by (relation "measure nat") auto

text \<open>
  \<open>Number.prototype.toFixed\<close>.  For a finite \<open>x\<close> below \<open>10^21\<close> it prints the integer
  \<open>n\<close> for which \<open>n / 10^f\<close> is nearest to \<open>x\<close> (the larger one on a tie), that is
  \<open>floor (x * 10^f + 1/2)\<close>, with a point before the last \<open>f\<close> digits.  From \<open>10^21\<close>
  on it prints what \<open>Number::toString\<close> prints, which is a parameter here.
\<close>

definition toFixed :: "(rat \<Rightarrow> string) \<Rightarrow> number \<Rightarrow> nat \<Rightarrow> string" where
  "toFixed toString x f =
     (case x of
        NaN \<Rightarrow> ''NaN''
      | PosInfinity \<Rightarrow> ''Infinity''
      | NegInfinity \<Rightarrow> ''-Infinity''
      | Finite v \<Rightarrow>
          let s = (if v < 0 then ''-'' else []);
              a = \<bar>v\<bar>
          in if 10 ^ 21 \<le> a then s @ toString a
             else
               let n = \<lfloor>a * 10 ^ f + 1 / 2\<rfloor>;
                   m = (if n = 0 then ''0'' else digits n);
                   m = (if f \<noteq> 0
                        then let m = (if length m \<le> f
                                      then replicate (f + 1 - length m) (CHR ''0'') @ m else m);
                                 k = length m
                             in take (k - f) m @ ''.'' @ drop (k - f) m
                        else m)
               in s @ m)"

section \<open>Unit conversions\<close>

definition satsToBTC :: "(rat \<Rightarrow> string) \<Rightarrow> number \<Rightarrow> string" where
  "satsToBTC toString sats = toFixed toString (js_divide sats 100000000) 8"

definition btcToSats :: "number \<Rightarrow> number" where
  "btcToSats btc = Math_round (js_times btc (Finite 100000000))"

text \<open>The value that a decimal string such as \<open>0.00012345\<close> denotes.\<close>

definition digits_value :: "string \<Rightarrow> int" where
  "digits_value s = foldl (\<lambda>acc c. 10 * acc + (of_char c - 48)) 0 s"

definition decimal_value :: "string \<Rightarrow> rat" where
  "decimal_value s =
     (let whole = takeWhile (\<lambda>c. c \<noteq> CHR ''.'') s;
          frac = drop (length whole + 1) s
      in of_int (digits_value whole) + of_int (digits_value frac) / 10 ^ length frac)"

section \<open>Library calls\<close>

text \<open>
  \<open>Buffer.from(text, 'hex')\<close> as Node.js implements it: pairs of hexadecimal digits, of
  either case, become bytes; the decoding stops at the first pair that is not made of
  two hexadecimal digits, and a single last character is dropped.  It never throws.
\<close>

definition hex_digit :: "char \<Rightarrow> int option" where
  "hex_digit c =
     (let n = of_char c
      in if 48 \<le> n \<and> n \<le> 57 then Some (n - 48)
         else if 97 \<le> n \<and> n \<le> 102 then Some (n - 87)
         else if 65 \<le> n \<and> n \<le> 70 then Some (n - 55)
         else None)"

fun Buffer_from_hex :: "string \<Rightarrow> bytes" where
  "Buffer_from_hex (a # b # rest) =
     (case hex_digit a of
        None \<Rightarrow> []
      | Some x \<Rightarrow> (case hex_digit b of
                    None \<Rightarrow> []
                  | Some y \<Rightarrow> of_int (16 * x + y) # Buffer_from_hex rest))"
| "Buffer_from_hex _ = []"

text \<open>The field \<open>bech32\<close> of a network object: the prefix of its segwit addresses.\<close>

definition bech32 :: "Network \<Rightarrow> string" where
  "bech32 network = (case network of networks_bitcoin \<Rightarrow> ''bc'' | networks_testnet \<Rightarrow> ''tb'')"

text \<open>
  \<open>bitcoin.payments.p2tr({ internalPubkey, network })\<close>.  The internal key must be a
  buffer of 32 bytes; the output key is the internal key tweaked by the tagged hash
  \<open>TapTweak\<close> of itself, which needs the ECC backend and fails when the 32 bytes are
  not the x coordinate of a curve point; the address is the bech32m encoding of the
  output key with the prefix of the network, and the output script is \<open>OP_1\<close> followed
  by the push of the 32 bytes of the output key.
\<close>

definition p2tr :: "library \<Rightarrow> runtime \<Rightarrow> bytes \<Rightarrow> Network \<Rightarrow> error + payment" where
  "p2tr L s internalPubkey network =
     (if length internalPubkey \<noteq> 32
      then Inl (LibraryError ''Expected property internalPubkey of type Buffer(Length: 32)'')
      else if \<not> eccLib s
      then Inl (LibraryError ''No ECC Library provided. You must call initEccLib()'')
      else case tweakKey L internalPubkey of
             None \<Rightarrow> Inl (LibraryError ''Cannot read properties of null (reading x)'')
           | Some pubkey \<Rightarrow>
               Inr \<lparr>address = Some (bech32m_encode L (bech32 network) pubkey),
                    script_output = Some (0x51 # 0x20 # pubkey)\<rparr>)"

definition new_Psbt :: "Network \<Rightarrow> Psbt" where
  "new_Psbt network = \<lparr>psbt_network = network, inputs = [], outputs = []\<rparr>"

definition addInput :: "library \<Rightarrow> Psbt \<Rightarrow> psbt_input \<Rightarrow> error + Psbt" where
  "addInput L psbt i =
     (case checkInput L psbt i of
        Some msg \<Rightarrow> Inl (LibraryError msg)
      | None \<Rightarrow> Inr (psbt\<lparr>inputs := inputs psbt @ [i]\<rparr>))"

definition addOutput :: "library \<Rightarrow> Psbt \<Rightarrow> psbt_output \<Rightarrow> error + Psbt" where
  "addOutput L psbt out =
     (case checkOutput L psbt out of
        Some msg \<Rightarrow> Inl (LibraryError msg)
      | None \<Rightarrow> Inr (psbt\<lparr>outputs := outputs psbt @ [out]\<rparr>))"

text \<open>
  \<open>psbt.signInput(i, signer)\<close>.  A Schnorr signature is made with auxiliary random
  data, which is drawn from the random generator for every signature, so that two
  signatures of the same input with the same key differ in general.
\<close>

definition signInput ::
  "library \<Rightarrow> nat \<Rightarrow> keyPair \<Rightarrow> Psbt \<Rightarrow> runtime \<Rightarrow> (error + Psbt) \<times> runtime" where
  "signInput L i signer psbt s =
     (if i < length (inputs psbt)
      then (bindE (thrown (signTaproot L psbt i signer (randomBytes L (drawn s))))
              (\<lambda>sig. Inr (psbt\<lparr>inputs := (inputs psbt)[i := (inputs psbt ! i)\<lparr>tapKeySig := Some sig\<rparr>]\<rparr>)),
            s\<lparr>drawn := Suc (drawn s)\<rparr>)
      else (Inl (LibraryError ''No input''), s))"

definition finalizeAllInputs :: "library \<Rightarrow> Psbt \<Rightarrow> error + Psbt" where
  "finalizeAllInputs L psbt =
     bindE (thrown (finalizeTaproot L psbt))
       (\<lambda>ws. if length ws = length (inputs psbt)
             then Inr (psbt\<lparr>inputs := map (\<lambda>(i, w). i\<lparr>finalScriptWitness := Some w\<rparr>) (zip (inputs psbt) ws)\<rparr>)
             else Inl (LibraryError ''Can not finalize input''))"

definition extractTransaction :: "library \<Rightarrow> Psbt \<Rightarrow> error + Transaction" where
  "extractTransaction L psbt =
     (case checkFees L psbt of
        Some msg \<Rightarrow> Inl (LibraryError msg)
      | None \<Rightarrow> Inr \<lparr>ins = inputs psbt, outs = outputs psbt\<rparr>)"

section \<open>Network parameters\<close>

definition getNetwork :: "BitcoinNetwork \<Rightarrow> Network" where
  "getNetwork network =
     (if network = testnet \<or> network = testnet4 then networks_testnet else networks_bitcoin)"

definition getApiUrl :: "BitcoinNetwork \<Rightarrow> string" where
  "getApiUrl network =
     (if network = testnet4 then ''https://mempool.space/testnet4/api''
      else if network = testnet then ''https://mempool.space/testnet/api''
      else ''https://mempool.space/api'')"

definition getBlockstreamApiUrl :: "BitcoinNetwork \<Rightarrow> string" where
  "getBlockstreamApiUrl network = getApiUrl network"

section \<open>Initialisation of the ECC backend\<close>

definition initEccLib :: "runtime \<Rightarrow> runtime" where
  "initEccLib s = s\<lparr>eccLib := True\<rparr>"

definition getECPair :: "runtime \<Rightarrow> runtime" where
  "getECPair s = (if \<not> ECPair s then (initEccLib s)\<lparr>ECPair := True\<rparr> else s)"

text \<open>
  The state in which a module is loaded, and the state after the start-up code of the
  application (\<open>main.tsx\<close>), which calls \<open>bitcoin.initEccLib\<close>.
\<close>

definition fresh :: runtime where
  "fresh = \<lparr>eccLib = False, ECPair = False, drawn = 0\<rparr>"

definition main :: runtime where
  "main = initEccLib fresh"

section \<open>Address derivation\<close>

text \<open>JavaScript's \<open>address || ''\<close>: an absent or empty address yields the empty string.\<close>

definition or_empty :: "string option \<Rightarrow> string" where
  "or_empty a = (case a of None \<Rightarrow> [] | Some x \<Rightarrow> x)"

definition nostrPubkeyToBitcoinAddress ::
  "library \<Rightarrow> string \<Rightarrow> BitcoinNetwork \<Rightarrow> runtime \<Rightarrow> (error + string) \<times> runtime" where
  "nostrPubkeyToBitcoinAddress L pubkeyHex network s =
     (try_catch
        (let pubkeyBuffer = Buffer_from_hex pubkeyHex in
         bindE (p2tr L s pubkeyBuffer (getNetwork network))
           (\<lambda>pay. Inr (or_empty (address pay))))
        (\<lambda>e. Inr []),
      s)"


section \<open>Transaction builder\<close>

definition dustLimit :: int where
  "dustLimit = 546"

text \<open>
  \<open>utxos.length * 57.5 + 2 * 43 + 10.5\<close>.  A JavaScript array has fewer than \<open>2^32\<close>
  elements, so every intermediate value is a half-integer far below \<open>2^53\<close> and the
  double-precision sum is exact (lemma \<open>estimatedSize_exact\<close>).
\<close>

definition estimatedSize :: "UTXO list \<Rightarrow> rat" where
  "estimatedSize utxos = of_nat (length utxos) * 57.5 + 2 * 43 + 10.5"

text \<open>The same sum, step by step in double precision.\<close>

definition estimatedSize_number :: "UTXO list \<Rightarrow> number" where
  "estimatedSize_number utxos =
     js_plus
       (js_plus (js_times (Finite (of_nat (length utxos))) (Finite 57.5))
          (js_times (Finite 2) (Finite 43)))
       (Finite 10.5)"

text \<open>
  \<open>Math.ceil(estimatedSize * feeRate)\<close>: the product is rounded to a double before
  \<open>Math.ceil\<close> is applied, and it is infinite when the rounded product overflows.
\<close>

definition estimatedFee :: "UTXO list \<Rightarrow> rat \<Rightarrow> number" where
  "estimatedFee utxos feeRate =
     Math_ceil (js_times (Finite (estimatedSize utxos)) (Finite feeRate))"

text \<open>\<open>buffer.slice(start, stop)\<close> for \<open>0 \<le> start \<le> stop\<close>.\<close>

definition slice :: "nat \<Rightarrow> nat \<Rightarrow> 'a list \<Rightarrow> 'a list" where
  "slice start stop xs = take (stop - start) (drop start xs)"

text \<open>
  The loop \<open>for (const utxo of utxos)\<close>: every output becomes an input whose script is
  rebuilt from the signer's own key, and its value is added to \<open>totalInput\<close>.
\<close>

fun addInputs ::
  "library \<Rightarrow> runtime \<Rightarrow> bytes \<Rightarrow> Network \<Rightarrow> UTXO list \<Rightarrow> Psbt \<Rightarrow> int \<Rightarrow> error + Psbt \<times> int" where
  "addInputs L s internalPubkey btcNetwork [] psbt totalInput = Inr (psbt, totalInput)"
| "addInputs L s internalPubkey btcNetwork (utxo # rest) psbt totalInput =
     bindE (p2tr L s internalPubkey btcNetwork) (\<lambda>pay.
     bindE (addInput L psbt
              \<lparr>hash = txid utxo, index = vout utxo,
               witnessUtxo_script = script_output pay, witnessUtxo_value = utxo_value utxo,
               tapInternalKey = internalPubkey, tapKeySig = None, finalScriptWitness = None\<rparr>)
       (\<lambda>psbt'. addInputs L s internalPubkey btcNetwork rest psbt' (totalInput + utxo_value utxo)))"

text \<open>The loop \<open>for (let i = 0; i < utxos.length; i++) psbt.signInput(i, tweakedSigner)\<close>.\<close>

fun signInputs ::
  "library \<Rightarrow> keyPair \<Rightarrow> nat list \<Rightarrow> Psbt \<Rightarrow> runtime \<Rightarrow> (error + Psbt) \<times> runtime" where
  "signInputs L signer [] psbt s = (Inr psbt, s)"
| "signInputs L signer (i # rest) psbt s =
     bindS (signInput L i signer psbt s) (signInputs L signer rest)"

text \<open>
  \<open>BigInt(v)\<close> of an integral amount is \<open>v\<close>; a rejected promise is an error result;
  logging with \<open>console.error\<close> is left out.
\<close>

text \<open>
  The network-parameterised builder, in the order of its source: the key pair and the
  change address (\<open>senderKeys\<close>), then the inputs (\<open>loadInputs\<close>); the fee and the
  change; the outputs (\<open>addOutputs\<close>); the signatures and the extraction
  (\<open>signAndExtract\<close>).
\<close>

definition senderKeys ::
  "library \<Rightarrow> string \<Rightarrow> Network \<Rightarrow> runtime \<Rightarrow> error + keyPair \<times> bytes \<times> string" where
  "senderKeys L privateKeyHex btcNetwork s =
     (let privateKeyBuffer = Buffer_from_hex privateKeyHex in
      bindE (thrown (fromPrivateKey L privateKeyBuffer)) (\<lambda>keyPair.
        let internalPubkey = slice 1 33 (publicKey keyPair) in
        bindE (p2tr L s internalPubkey btcNetwork) (\<lambda>pay.
          case address pay of
            None \<Rightarrow> Inl ChangeAddressError
          | Some changeAddress \<Rightarrow>
              if changeAddress = [] then Inl ChangeAddressError
              else Inr (keyPair, internalPubkey, changeAddress))))"

definition loadInputs ::
  "library \<Rightarrow> string \<Rightarrow> UTXO list \<Rightarrow> Network \<Rightarrow> runtime
     \<Rightarrow> error + keyPair \<times> bytes \<times> string \<times> Psbt \<times> int" where
  "loadInputs L privateKeyHex utxos btcNetwork s =
     bindE (senderKeys L privateKeyHex btcNetwork s) (\<lambda>(keyPair, internalPubkey, changeAddress).
     bindE (addInputs L s internalPubkey btcNetwork utxos (new_Psbt btcNetwork) 0)
       (\<lambda>(psbt, totalInput). Inr (keyPair, internalPubkey, changeAddress, psbt, totalInput)))"

definition addOutputs ::
  "library \<Rightarrow> string \<Rightarrow> int \<Rightarrow> string \<Rightarrow> number \<Rightarrow> Psbt \<Rightarrow> error + Psbt" where
  "addOutputs L toAddress amountSats changeAddress change psbt =
     bindE (addOutput L psbt \<lparr>out_address = toAddress, out_value = amountSats\<rparr>) (\<lambda>psbt1.
       if js_less (Finite (of_int dustLimit)) change
       then bindE (BigInt change)
              (\<lambda>v. addOutput L psbt1 \<lparr>out_address = changeAddress, out_value = v\<rparr>)
       else Inr psbt1)"

definition signAndExtract ::
  "library \<Rightarrow> keyPair \<Rightarrow> bytes \<Rightarrow> nat \<Rightarrow> Psbt \<Rightarrow> runtime \<Rightarrow> (error + Transaction) \<times> runtime" where
  "signAndExtract L keyPair internalPubkey n psbt s =
     bindS (thrown (tweak L keyPair (taggedHash L ''TapTweak'' internalPubkey)), s)
       (\<lambda>tweakedSigner s.
     bindS (signInputs L tweakedSigner [0..<n] psbt s) (\<lambda>psbt1 s.
     bindS (finalizeAllInputs L psbt1, s) (\<lambda>psbt2 s.
     (extractTransaction L psbt2, s))))"

text \<open>The builder up to \<open>const tx = psbt.extractTransaction()\<close>, with the fee it will return.\<close>

definition signedTransaction ::
  "library \<Rightarrow> string \<Rightarrow> string \<Rightarrow> int \<Rightarrow> UTXO list \<Rightarrow> rat \<Rightarrow> BitcoinNetwork \<Rightarrow> runtime
     \<Rightarrow> (error + Transaction \<times> number) \<times> runtime" where
  "signedTransaction L privateKeyHex toAddress amountSats utxos feeRate network s =
     bindS (loadInputs L privateKeyHex utxos (getNetwork network) s, s)
       (\<lambda>(keyPair, internalPubkey, changeAddress, psbt, totalInput) s.
          let estimated = estimatedFee utxos feeRate;
              change = sats_minus (totalInput - amountSats) estimated
          in
          if js_less change (Finite 0)
          then (Inl (InsufficientFunds (sats_plus amountSats estimated) totalInput), s)
          else bindS (addOutputs L toAddress amountSats changeAddress change psbt, s) (\<lambda>psbt1 s.
               bindS (signAndExtract L keyPair internalPubkey (length utxos) psbt1 s) (\<lambda>tx s.
               (Inr (tx, estimated), s))))"

definition createBitcoinTransaction ::
  "library \<Rightarrow> string \<Rightarrow> string \<Rightarrow> int \<Rightarrow> UTXO list \<Rightarrow> rat \<Rightarrow> BitcoinNetwork \<Rightarrow> runtime
     \<Rightarrow> (error + tx_result) \<times> runtime" where
  "createBitcoinTransaction L privateKeyHex toAddress amountSats utxos feeRate network s =
     bindS (signedTransaction L privateKeyHex toAddress amountSats utxos feeRate network (getECPair s))
       (\<lambda>(tx, estimated) s. (Inr \<lparr>txHex = toHex L tx, fee = estimated\<rparr>, s))"



section \<open>An executable library\<close>

text \<open>
  The theorems below hold for every \<open>library\<close>.  To run the builder on concrete inputs
  a \<open>library\<close> value is needed; \<open>sample_library\<close> is one.  Its elliptic-curve and
  bech32m functions are those of secp256k1 and BIP 350 restricted to one key pair:
  the private key 1, whose public key is the generator of the curve; every other key
  is refused.  It keeps the checks of \<open>Psbt\<close> that matter here (transaction ids of 32
  bytes, duplicate inputs, address prefixes, negative values, unsigned inputs).  The
  tagged hash, the tweak of the private key, the signature and the serialisation of
  the transaction are stand-ins: simple functions of the same arguments.
\<close>

definition hex_encode :: "bytes \<Rightarrow> string" where
  "hex_encode bs =
     concat (map (\<lambda>b. [''0123456789abcdef'' ! nat (uint b div 16),
                        ''0123456789abcdef'' ! nat (uint b mod 16)]) bs)"

text \<open>
  The private key 1 and the x coordinate of the generator, in hexadecimal notation
  and as bytes; the Taproot output key of the generator; the addresses of that output
  key on mainnet and on the test networks.
\<close>

definition sample_key :: string where
  "sample_key = ''0000000000000000000000000000000000000000000000000000000000000001''"

definition sample_key_bytes :: bytes where
  "sample_key_bytes =
     [0x00, 0x00, 0x00, 0x00, 0x00, 0x00, 0x00, 0x00,
      0x00, 0x00, 0x00, 0x00, 0x00, 0x00, 0x00, 0x00,
      0x00, 0x00, 0x00, 0x00, 0x00, 0x00, 0x00, 0x00,
      0x00, 0x00, 0x00, 0x00, 0x00, 0x00, 0x00, 0x01]"

definition sample_pubkey :: string where
  "sample_pubkey = ''79be667ef9dcbbac55a06295ce870b07029bfcdb2dce28d959f2815b16f81798''"

definition sample_pubkey_bytes :: bytes where
  "sample_pubkey_bytes =
     [0x79, 0xbe, 0x66, 0x7e, 0xf9, 0xdc, 0xbb, 0xac,
      0x55, 0xa0, 0x62, 0x95, 0xce, 0x87, 0x0b, 0x07,
      0x02, 0x9b, 0xfc, 0xdb, 0x2d, 0xce, 0x28, 0xd9,
      0x59, 0xf2, 0x81, 0x5b, 0x16, 0xf8, 0x17, 0x98]"

definition sample_output_key :: bytes where
  "sample_output_key =
     [0xda, 0x47, 0x10, 0x96, 0x4f, 0x78, 0x52, 0x69,
      0x5d, 0xe2, 0xda, 0x02, 0x52, 0x90, 0xe2, 0x4a,
      0xf6, 0xd8, 0xc2, 0x81, 0xde, 0x5a, 0x0b, 0x90,
      0x2b, 0x71, 0x35, 0xfd, 0x9f, 0xd7, 0x4d, 0x21]"

definition sample_address :: string where
  "sample_address = ''bc1pmfr3p9j00pfxjh0zmgp99y8zftmd3s5pmedqhyptwy6lm87hf5sspknck9''"

definition sample_address_testnet :: string where
  "sample_address_testnet = ''tb1pmfr3p9j00pfxjh0zmgp99y8zftmd3s5pmedqhyptwy6lm87hf5ssk79hv2''"

definition sample_tweakKey :: "bytes \<Rightarrow> bytes option" where
  "sample_tweakKey internalPubkey =
     (if internalPubkey = sample_pubkey_bytes then Some sample_output_key else None)"

definition sample_bech32m_encode :: "string \<Rightarrow> bytes \<Rightarrow> string" where
  "sample_bech32m_encode prefix program =
     (if program \<noteq> sample_output_key then []
      else if prefix = ''bc'' then sample_address
      else if prefix = ''tb'' then sample_address_testnet
      else [])"

definition sample_fromPrivateKey :: "bytes \<Rightarrow> string + keyPair" where
  "sample_fromPrivateKey d =
     (if length d \<noteq> 32 then Inl ''Expected Buffer(Length: 32)''
      else if d = replicate 32 0 then Inl ''Private key not in range [1, n)''
      else if d = sample_key_bytes
      then Inr \<lparr>privateKey = d, publicKey = 0x02 # sample_pubkey_bytes\<rparr>
      else Inl ''Private key not known to the sample library'')"

definition sample_taggedHash :: "string \<Rightarrow> bytes \<Rightarrow> bytes" where
  "sample_taggedHash tag msg = take 32 (msg @ map of_char tag @ replicate 32 0)"

definition sample_tweak :: "keyPair \<Rightarrow> bytes \<Rightarrow> string + keyPair" where
  "sample_tweak k t =
     (if length t \<noteq> 32 then Inl ''Expected Buffer(Length: 32)''
      else Inr (k\<lparr>privateKey := map (\<lambda>(a, b). a + b) (zip (privateKey k) t)\<rparr>))"

definition sample_checkInput :: "Psbt \<Rightarrow> psbt_input \<Rightarrow> string option" where
  "sample_checkInput psbt i =
     (if length (hash i) \<noteq> 64 \<or> length (Buffer_from_hex (hash i)) \<noteq> 32
      then Some ''Invalid arguments for Psbt.addInput''
      else if witnessUtxo_script i = None then Some ''Invalid arguments for Psbt.addInput''
      else if (hash i, index i) \<in> set (map (\<lambda>j. (hash j, index j)) (inputs psbt))
      then Some ''Duplicate input detected.''
      else None)"

definition sample_checkOutput :: "Psbt \<Rightarrow> psbt_output \<Rightarrow> string option" where
  "sample_checkOutput psbt out =
     (if take 3 (out_address out) \<noteq> bech32 (psbt_network psbt) @ ''1''
      then Some ''Address has no matching Script''
      else if out_value out < 0 then Some ''Invalid arguments for Psbt.addOutput''
      else None)"

definition sample_randomBytes :: "nat \<Rightarrow> bytes" where
  "sample_randomBytes k = replicate 32 (of_nat k)"

definition sample_signTaproot :: "Psbt \<Rightarrow> nat \<Rightarrow> keyPair \<Rightarrow> bytes \<Rightarrow> string + bytes" where
  "sample_signTaproot psbt i signer auxRand = Inr (take 32 auxRand @ take 32 (privateKey signer))"

definition sample_finalizeTaproot :: "Psbt \<Rightarrow> string + bytes list" where
  "sample_finalizeTaproot psbt =
     (if inputs psbt = [] then Inl ''No input #0''
      else if list_ex (\<lambda>i. tapKeySig i = None) (inputs psbt) then Inl ''Can not finalize input''
      else Inr (map (\<lambda>i. case tapKeySig i of Some sig \<Rightarrow> sig | None \<Rightarrow> []) (inputs psbt)))"

definition sample_toHex :: "Transaction \<Rightarrow> string" where
  "sample_toHex tx =
     concat (map (\<lambda>i. hash i @ hex_encode (case finalScriptWitness i of Some w \<Rightarrow> w | None \<Rightarrow> []))
               (ins tx)) @
     concat (map (\<lambda>out. digits (out_value out) @ out_address out) (outs tx))"

definition sample_library :: library where
  "sample_library =
     \<lparr>tweakKey = sample_tweakKey,
      bech32m_encode = sample_bech32m_encode,
      fromPrivateKey = sample_fromPrivateKey,
      taggedHash = sample_taggedHash,
      tweak = sample_tweak,
      checkInput = sample_checkInput,
      checkOutput = sample_checkOutput,
      randomBytes = sample_randomBytes,
      signTaproot = sample_signTaproot,
      finalizeTaproot = sample_finalizeTaproot,
      checkFees = (\<lambda>psbt. None),
      toHex = sample_toHex\<rparr>"

text \<open>Further inputs of the examples: a recipient and a spendable output of a given value.\<close>

definition sample_recipient :: string where
  "sample_recipient = ''bc1p5cyxnuxmeuwuvkwfem96lqzszd02n6xdcjrs20cac6yqjjwudpxqkedrcr''"

definition sample_utxo :: "int \<Rightarrow> UTXO" where
  "sample_utxo v =
     \<lparr>txid = ''a1b2c3d4e5f60718293a4b5c6d7e8f90a1b2c3d4e5f60718293a4b5c6d7e8f90'', vout = 0,
      utxo_value = v,
      status = \<lparr>confirmed = True, block_height = None, block_hash = None, block_time = None\<rparr>\<rparr>"

text \<open>
  The double nearest to the decimal \<open>0.09090909090909091\<close>, a fee rate of one eleventh
  of a satoshi per virtual byte: \<open>3275345183542179 / 2^55\<close>.
\<close>

definition sample_feeRate :: rat where
  "sample_feeRate = 3275345183542179 / 36028797018963968"

section \<open>Properties of the exception and builder primitives\<close>

lemma bindE_Inr_iff: "bindE m f = Inr y \<longleftrightarrow> (\<exists>x. m = Inr x \<and> f x = Inr y)"
  by (cases m) (simp_all add: bindE_def)


lemma bindE_Inr: "bindE (Inr x) f = f x"
  by (simp add: bindE_def)


lemma bindS_Inr_iff:
  "fst (bindS m f) = Inr y \<longleftrightarrow> (\<exists>x. fst m = Inr x \<and> fst (f x (snd m)) = Inr y)"
  by (cases "fst m") (simp_all add: bindS_def)












lemma addInput_Inr:
  "addInput L psbt i = Inr psbt1 \<Longrightarrow> psbt1 = psbt\<lparr>inputs := inputs psbt @ [i]\<rparr>"
  by (simp add: addInput_def split: option.splits)

lemma addOutput_Inr:
  "addOutput L psbt out = Inr psbt1 \<Longrightarrow> psbt1 = psbt\<lparr>outputs := outputs psbt @ [out]\<rparr>"
  by (simp add: addOutput_def split: option.splits)

lemma addInputs_Inr:
  "addInputs L s k n utxos psbt t = Inr (psbt', t') \<Longrightarrow>
     t' = t + sum_list (map utxo_value utxos) \<and> outputs psbt' = outputs psbt"
proof (induction utxos arbitrary: psbt t)
  case Nil
  then show ?case by simp
next
  case (Cons u us)
  from Cons.prems obtain i psbt1 where
    step: "addInput L psbt i = Inr psbt1"
    and rest: "addInputs L s k n us psbt1 (t + utxo_value u) = Inr (psbt', t')"
    unfolding addInputs.simps bindE_Inr_iff by blast
  from addInput_Inr [OF step] have "outputs psbt1 = outputs psbt"
    by simp
  with Cons.IH [OF rest] show ?case by simp
qed


lemma signInput_outputs:
  "fst (signInput L i signer psbt s) = Inr psbt' \<Longrightarrow> outputs psbt' = outputs psbt"
  by (auto simp: signInput_def bindE_Inr_iff split: if_splits)

lemma signInputs_outputs:
  "fst (signInputs L signer idxs psbt s) = Inr psbt' \<Longrightarrow> outputs psbt' = outputs psbt"
proof (induction idxs arbitrary: psbt s)
  case Nil
  then show ?case by simp
next
  case (Cons i rest)
  from Cons.prems obtain psbt1 where
    one: "fst (signInput L i signer psbt s) = Inr psbt1"
    and others: "fst (signInputs L signer rest psbt1 (snd (signInput L i signer psbt s))) = Inr psbt'"
    unfolding signInputs.simps bindS_Inr_iff by blast
  from Cons.IH [OF others] signInput_outputs [OF one] show ?case by simp
qed

lemma finalizeAllInputs_outputs:
  "finalizeAllInputs L psbt = Inr psbt' \<Longrightarrow> outputs psbt' = outputs psbt"
  by (auto simp: finalizeAllInputs_def bindE_Inr_iff split: if_splits)

lemma extractTransaction_outs:
  "extractTransaction L psbt = Inr tx \<Longrightarrow> outs tx = outputs psbt"
  by (auto simp: extractTransaction_def split: option.splits)

lemma signAndExtract_outs:
  assumes "fst (signAndExtract L kp ik n psbt s) = Inr tx"
  shows "outs tx = outputs psbt"
proof -
  from assms obtain signer psbt1 psbt2 s1 where
    "fst (signInputs L signer [0..<n] psbt s1) = Inr psbt1"
    "finalizeAllInputs L psbt1 = Inr psbt2"
    "extractTransaction L psbt2 = Inr tx"
    unfolding signAndExtract_def bindS_Inr_iff fst_conv snd_conv by blast
  then show ?thesis
    using signInputs_outputs finalizeAllInputs_outputs extractTransaction_outs by metis
qed

lemma BigInt_of_int: "BigInt (Finite (of_int c)) = Inr c"
  by (simp add: BigInt_def)

lemma addOutputs_Inr:
  assumes "addOutputs L toAddress amountSats changeAddress (Finite (of_int change)) psbt = Inr psbt'"
  shows "outputs psbt' =
           outputs psbt @ \<lparr>out_address = toAddress, out_value = amountSats\<rparr> #
             (if change > 546 then [\<lparr>out_address = changeAddress, out_value = change\<rparr>] else [])"
proof -
  from assms obtain psbt1 where
    first: "addOutput L psbt \<lparr>out_address = toAddress, out_value = amountSats\<rparr> = Inr psbt1"
    and second: "(if js_less (Finite (of_int dustLimit)) (Finite (of_int change))
                  then bindE (BigInt (Finite (of_int change)))
                         (\<lambda>v. addOutput L psbt1 \<lparr>out_address = changeAddress, out_value = v\<rparr>)
                  else Inr psbt1) = Inr psbt'"
    unfolding addOutputs_def bindE_Inr_iff by blast
  show ?thesis
  proof (cases "change > 546")
    case True
    with second have "addOutput L psbt1 \<lparr>out_address = changeAddress, out_value = change\<rparr> = Inr psbt'"
      by (simp add: dustLimit_def BigInt_of_int bindE_Inr)
    from addOutput_Inr [OF this] addOutput_Inr [OF first] True show ?thesis by simp
  next
    case False
    with second have "psbt' = psbt1" by (simp add: dustLimit_def)
    with addOutput_Inr [OF first] False show ?thesis by simp
  qed
qed

lemma addOutputs_PosInfinity:
  "addOutputs L toAddress amountSats changeAddress PosInfinity psbt \<noteq> Inr psbt'"
  by (simp add: addOutputs_def bindE_Inr_iff BigInt_def)

lemma loadInputs_Inr:
  assumes "loadInputs L privateKeyHex utxos btcNetwork s = Inr (keyPair, internalPubkey, changeAddress, psbt, totalInput)"
  shows "senderKeys L privateKeyHex btcNetwork s = Inr (keyPair, internalPubkey, changeAddress) \<and>
         totalInput = sum_list (map utxo_value utxos) \<and> outputs psbt = []"
proof -
  from assms obtain x y where
    keys: "senderKeys L privateKeyHex btcNetwork s = Inr x"
    and rest: "(case x of (keyPair, internalPubkey, changeAddress) \<Rightarrow>
                  bindE (addInputs L s internalPubkey btcNetwork utxos (new_Psbt btcNetwork) 0)
                    (\<lambda>(psbt, totalInput). Inr (keyPair, internalPubkey, changeAddress, psbt, totalInput)))
               = Inr (keyPair, internalPubkey, changeAddress, psbt, totalInput)"
    unfolding loadInputs_def bindE_Inr_iff by blast
  obtain k i c where x: "x = (k, i, c)" by (cases x)
  from rest x obtain p t where
    ins: "addInputs L s i btcNetwork utxos (new_Psbt btcNetwork) 0 = Inr (p, t)"
    and eq: "(k, i, c, p, t) = (keyPair, internalPubkey, changeAddress, psbt, totalInput)"
    by (auto simp: bindE_Inr_iff)
  from addInputs_Inr [OF ins] have "t = sum_list (map utxo_value utxos)" "outputs p = []"
    by (simp_all add: new_Psbt_def)
  with keys x eq show ?thesis by simp
qed

text \<open>The fee estimate is an integer or an infinity, never NaN.\<close>

lemma estimatedFee_cases:
  "(\<exists>f. estimatedFee utxos feeRate = Finite (of_int f)) \<or>
   estimatedFee utxos feeRate = PosInfinity \<or> estimatedFee utxos feeRate = NegInfinity"
  by (auto simp: estimatedFee_def round_to_double_def Math_ceil_def Let_def)

text \<open>
  The balance check \<open>change < 0\<close> is the comparison of the total input with
  \<open>amountSats + estimatedFee\<close>.
\<close>

lemma change_negative_iff:
  "js_less (sats_minus (t - a) x) (Finite 0) \<longleftrightarrow> js_less (Finite (of_int t)) (sats_plus a x)"
  by (cases x) (auto simp: sats_minus_def sats_plus_def)

lemma signedTransaction_Inr:
  assumes "fst (signedTransaction L privateKeyHex toAddress amountSats utxos feeRate network s) = Inr (tx, paid)"
  shows "\<exists>keyPair internalPubkey changeAddress f.
           senderKeys L privateKeyHex (getNetwork network) s = Inr (keyPair, internalPubkey, changeAddress) \<and>
           estimatedFee utxos feeRate = Finite (of_int f) \<and>
           paid = Finite (of_int f) \<and>
           0 \<le> sum_list (map utxo_value utxos) - amountSats - f \<and>
           outs tx = \<lparr>out_address = toAddress, out_value = amountSats\<rparr> #
             (if sum_list (map utxo_value utxos) - amountSats - f > 546
              then [\<lparr>out_address = changeAddress,
                     out_value = sum_list (map utxo_value utxos) - amountSats - f\<rparr>]
              else [])"
proof -
  define est where "est = estimatedFee utxos feeRate"
  from assms obtain x where
    loaded: "loadInputs L privateKeyHex utxos (getNetwork network) s = Inr x"
    and rest: "fst ((case x of (keyPair, internalPubkey, changeAddress, psbt, totalInput) \<Rightarrow> \<lambda>s.
          let estimated = est;
              change = sats_minus (totalInput - amountSats) estimated
          in
          if js_less change (Finite 0)
          then (Inl (InsufficientFunds (sats_plus amountSats estimated) totalInput), s)
          else bindS (addOutputs L toAddress amountSats changeAddress change psbt, s) (\<lambda>psbt1 s.
               bindS (signAndExtract L keyPair internalPubkey (length utxos) psbt1 s) (\<lambda>tx s.
               (Inr (tx, estimated), s)))) s) = Inr (tx, paid)"
    unfolding signedTransaction_def bindS_Inr_iff fst_conv snd_conv est_def by blast
  obtain k i c p t where x: "x = (k, i, c, p, t)" by (cases x)
  from loadInputs_Inr [OF loaded [unfolded x]]
  have keys: "senderKeys L privateKeyHex (getNetwork network) s = Inr (k, i, c)"
    and t: "t = sum_list (map utxo_value utxos)" and p: "outputs p = []"
    by simp_all
  define change where "change = sats_minus (t - amountSats) est"
  from rest x have nonneg: "\<not> js_less change (Finite 0)"
    by (auto simp: change_def Let_def split: if_splits)
  with rest x obtain psbt1 s1 where
    added: "addOutputs L toAddress amountSats c change p = Inr psbt1"
    and signed: "fst (signAndExtract L k i (length utxos) psbt1 s1) = Inr tx"
    and paid: "paid = est"
    by (auto simp: change_def Let_def bindS_Inr_iff split: if_splits)
  from estimatedFee_cases [of utxos feeRate]
  consider f where "est = Finite (of_int f)" | "est = PosInfinity" | "est = NegInfinity"
    unfolding est_def by blast
  then show ?thesis
  proof cases
    case 1
    then have ch: "change = Finite (of_int (t - amountSats - f))"
      by (simp add: change_def sats_minus_def)
    from nonneg ch have pos: "0 \<le> t - amountSats - f" by simp
    from signAndExtract_outs [OF signed] addOutputs_Inr [OF added [unfolded ch]] p
    have "outs tx = \<lparr>out_address = toAddress, out_value = amountSats\<rparr> #
            (if t - amountSats - f > 546
             then [\<lparr>out_address = c, out_value = t - amountSats - f\<rparr>] else [])"
      by simp
    with keys pos paid 1 t show ?thesis
      unfolding est_def by blast
  next
    case 2
    with nonneg show ?thesis by (simp add: change_def sats_minus_def)
  next
    case 3
    with added addOutputs_PosInfinity show ?thesis by (simp add: change_def sats_minus_def)
  qed
qed

lemma createBitcoinTransaction_Inr:
  assumes "fst (createBitcoinTransaction L privateKeyHex toAddress amountSats utxos feeRate network s) = Inr res"
  shows "\<exists>tx. fst (signedTransaction L privateKeyHex toAddress amountSats utxos feeRate network (getECPair s))
                = Inr (tx, fee res) \<and> txHex res = toHex L tx"
  using assms
  by (auto simp: createBitcoinTransaction_def bindS_Inr_iff)

lemma createBitcoinTransaction_fee:
  assumes "fst (createBitcoinTransaction L privateKeyHex toAddress amountSats utxos feeRate network s) = Inr res"
  shows "fee res = estimatedFee utxos feeRate"
proof -
  from createBitcoinTransaction_Inr [OF assms] obtain tx where
    "fst (signedTransaction L privateKeyHex toAddress amountSats utxos feeRate network (getECPair s))
       = Inr (tx, fee res)"
    by blast
  from signedTransaction_Inr [OF this] show ?thesis by auto
qed

text \<open>Signing and building do not touch the ECC backend; only \<open>getECPair\<close> does.\<close>

lemma eccLib_signInput: "eccLib (snd (signInput L i signer psbt s)) = eccLib s"
  by (simp add: signInput_def)

lemma eccLib_bindS:
  assumes "\<And>x t. eccLib (snd (f x t)) = eccLib t"
  shows "eccLib (snd (bindS m f)) = eccLib (snd m)"
  using assms by (cases "fst m") (simp_all add: bindS_def)

lemma eccLib_signInputs: "eccLib (snd (signInputs L signer idxs psbt s)) = eccLib s"
proof (induction idxs arbitrary: psbt s)
  case Nil
  then show ?case by simp
next
  case (Cons i rest)
  have "eccLib (snd (bindS (signInput L i signer psbt s) (signInputs L signer rest)))
          = eccLib (snd (signInput L i signer psbt s))"
    by (rule eccLib_bindS) (rule Cons.IH)
  then show ?case by (simp add: eccLib_signInput)
qed

lemma eccLib_signAndExtract: "eccLib (snd (signAndExtract L kp ik n psbt s)) = eccLib s"
  by (simp add: signAndExtract_def eccLib_bindS eccLib_signInputs)

lemma eccLib_signedTransaction:
  "eccLib (snd (signedTransaction L privateKeyHex toAddress amountSats utxos feeRate network s)) = eccLib s"
  by (simp add: signedTransaction_def eccLib_bindS eccLib_signAndExtract Let_def split_def)

lemma eccLib_createBitcoinTransaction:
  "eccLib (snd (createBitcoinTransaction L privateKeyHex toAddress amountSats utxos feeRate network s))
     = eccLib (getECPair s)"
  by (simp add: createBitcoinTransaction_def eccLib_bindS eccLib_signedTransaction split_def)

section \<open>Properties of the hexadecimal decoding\<close>




section \<open>The state that the builder depends on\<close>









section \<open>Properties of double rounding and of the decimal notation\<close>

lemma two_powi_nonneg: "0 \<le> e \<Longrightarrow> (2::rat) powi e = of_int (2 ^ nat e)"
  by (simp add: power_int_def)

lemma two_powi_neg: "0 \<le> e \<Longrightarrow> (2::rat) powi (- e) = 1 / of_int (2 ^ nat e)"
  by (simp add: power_int_minus two_powi_nonneg inverse_eq_divide)

lemma ilog2_bounds:
  assumes "0 < x"
  shows "2 powi ilog2 x \<le> x" and "x < 2 powi (ilog2 x + 1)"
proof -
  have "2 powi ilog2 x \<le> x \<and> x < 2 powi (ilog2 x + 1)"
  proof (cases "1 \<le> x")
    case True
    define n where "n = \<lfloor>x\<rfloor>"
    define b where "b = bitlen n"
    from True have n: "0 < n" by (simp add: n_def)
    from bitlen_bounds [OF n] have lo: "2 ^ nat (b - 1) \<le> n" and hi: "n < 2 ^ nat b"
      by (simp_all add: b_def)
    from n have b: "1 \<le> b"
      using bitlen_eq_zero_iff [of n] bitlen_nonneg [of n] by (simp add: b_def)
    from True have e: "ilog2 x = b - 1" by (simp add: ilog2_def b_def n_def)
    have "(2::rat) powi (b - 1) = of_int (2 ^ nat (b - 1))"
      using b by (intro two_powi_nonneg) simp
    also have "\<dots> \<le> of_int n" using lo by (simp only: of_int_le_iff)
    also have "\<dots> \<le> x" by (simp add: n_def)
    finally have one: "2 powi (b - 1) \<le> x" .
    have "x < of_int n + 1" unfolding n_def by linarith
    also have "\<dots> = of_int (n + 1)" by simp
    also have "\<dots> \<le> of_int (2 ^ nat b)" using hi by (simp only: of_int_le_iff)
    also have "\<dots> = (2::rat) powi b"
      using b by (subst two_powi_nonneg) simp_all
    finally have two: "x < 2 powi b" .
    from one two e show ?thesis by simp
  next
    case False
    define c where "c = \<lceil>1 / x\<rceil>"
    define m where "m = c - 1"
    define b where "b = bitlen m"
    from False assms have inv: "1 < 1 / x" by (simp add: field_simps)
    then have "1 < c" by (simp add: c_def less_ceiling_iff)
    then have m: "0 < m" by (simp add: m_def)
    from bitlen_bounds [OF m] have lo: "2 ^ nat (b - 1) \<le> m" and hi: "m < 2 ^ nat b"
      by (simp_all add: b_def)
    from m have b: "1 \<le> b"
      using bitlen_eq_zero_iff [of m] bitlen_nonneg [of m] by (simp add: b_def)
    from False have e: "ilog2 x = - b" by (simp add: ilog2_def b_def m_def c_def)
    have "1 / x \<le> of_int c" by (simp add: c_def)
    also have "of_int c = (of_int (m + 1) :: rat)" by (simp add: m_def)
    also have "\<dots> \<le> of_int (2 ^ nat b)" using hi by (simp only: of_int_le_iff)
    finally have "1 / x \<le> of_int (2 ^ nat b)" .
    then have "1 / of_int (2 ^ nat b) \<le> x"
      using assms by (simp add: field_simps)
    moreover have "(2::rat) powi (- b) = 1 / of_int (2 ^ nat b)"
      using b by (intro two_powi_neg) simp
    ultimately have one: "2 powi (- b) \<le> x" by simp
    have "(of_int (2 ^ nat (b - 1)) :: rat) \<le> of_int m" using lo by (simp only: of_int_le_iff)
    also have "of_int m < 1 / x"
      unfolding m_def c_def by simp linarith
    finally have "of_int (2 ^ nat (b - 1)) < 1 / x" .
    then have "x < 1 / of_int (2 ^ nat (b - 1))"
      using assms by (simp add: field_simps)
    moreover have "(2::rat) powi (- (b - 1)) = 1 / of_int (2 ^ nat (b - 1))"
      using b by (intro two_powi_neg) simp
    ultimately have two: "x < 2 powi (- b + 1)" by simp
    from one two e show ?thesis by simp
  qed
  then show "2 powi ilog2 x \<le> x" and "x < 2 powi (ilog2 x + 1)" by simp_all
qed

lemma round_half_even_error: "\<bar>of_int (round_half_even y) - y\<bar> \<le> 1 / 2"
proof -
  have "of_int \<lfloor>y\<rfloor> \<le> y" "y < of_int \<lfloor>y\<rfloor> + 1" by linarith+
  then show ?thesis
    by (auto simp: round_half_even_def Let_def abs_le_iff)
qed


lemma two_powi_less_imp_less:
  assumes "(2::rat) powi a < 2 powi b"
  shows "a < b"
proof (rule ccontr)
  assume "\<not> a < b"
  then have "b \<le> a" by simp
  then have "(2::rat) powi b \<le> 2 powi a" by (intro power_int_increasing) simp_all
  with assms show False by simp
qed

lemma round_to_double_error:
  assumes normal: "2 powi (- 1022) \<le> x" and below: "x < 2 powi 1023"
  shows "\<exists>y. round_to_double x = Finite y \<and> \<bar>y - x\<bar> \<le> x / 2 ^ 53"
proof -
  have pos: "0 < x"
    using normal zero_less_power_int [of "2::rat" "- 1022"] by linarith
  define e where "e = ilog2 x"
  define ulp where "ulp = (2::rat) powi (e - 52)"
  define y where "y = of_int (round_half_even (x / ulp)) * ulp"
  from ilog2_bounds [OF pos] have lo: "2 powi e \<le> x" and hi: "x < 2 powi (e + 1)"
    by (simp_all add: e_def)
  from normal hi have "(2::rat) powi (- 1022) < 2 powi (e + 1)" by simp
  then have emin: "- 1022 \<le> e" using two_powi_less_imp_less by fastforce
  have ulp_pos: "0 < ulp" by (simp add: ulp_def)
  have half_ulp: "ulp / 2 = 2 powi e / 2 ^ 53"
  proof -
    have "ulp = 2 powi e / 2 powi 52" unfolding ulp_def by (rule power_int_diff) simp
    then show ?thesis by simp
  qed
  have "y - x = (of_int (round_half_even (x / ulp)) - x / ulp) * ulp"
    using ulp_pos by (simp add: y_def field_simps)
  then have "\<bar>y - x\<bar> = \<bar>of_int (round_half_even (x / ulp)) - x / ulp\<bar> * ulp"
    using ulp_pos by (simp add: abs_mult)
  also have "\<dots> \<le> 1 / 2 * ulp"
    using round_half_even_error [of "x / ulp"] ulp_pos by (intro mult_right_mono) simp_all
  also have "\<dots> = 2 powi e / 2 ^ 53" using half_ulp by simp
  also have "\<dots> \<le> x / 2 ^ 53" using lo by (simp add: divide_right_mono)
  finally have err: "\<bar>y - x\<bar> \<le> x / 2 ^ 53" .
  have small: "x / 2 ^ 53 < x" using pos by (simp add: field_simps)
  from err small have "\<bar>y - x\<bar> < x" by linarith
  then have ypos: "0 < y" and yhi: "y < 2 * x" by linarith+
  have "(2::rat) powi 1024 = 2 powi 1023 * 2 powi 1"
    using power_int_add [of "2::rat" 1023 1] by simp
  then have "2 * x < 2 powi 1024" using below by simp
  with yhi have "y < 2 powi 1024" by simp
  with ilog2_bounds(1) [OF ypos] have "(2::rat) powi ilog2 y < 2 powi 1024" by simp
  then have "ilog2 y < 1024" by (rule two_powi_less_imp_less)
  then have fin: "ilog2 \<bar>y\<bar> \<le> 1023" using ypos by simp
  have "round_to_double x = Finite y"
    using pos emin fin
    by (simp add: round_to_double_def Let_def e_def [symmetric] max_absorb1
        ulp_def [symmetric] y_def [symmetric])
  with err show ?thesis by blast
qed

declare digits.simps [simp del]

lemma digit_char:
  assumes "0 \<le> d" "d < 10"
  shows "of_char (''0123456789'' ! nat d) = 48 + d" and "''0123456789'' ! nat d \<noteq> CHR ''.''"
proof -
  from assms have "d = 0 \<or> d = 1 \<or> d = 2 \<or> d = 3 \<or> d = 4 \<or> d = 5 \<or> d = 6 \<or> d = 7 \<or> d = 8 \<or> d = 9"
    by presburger
  then show "of_char (''0123456789'' ! nat d) = 48 + d" and "''0123456789'' ! nat d \<noteq> CHR ''.''"
    by auto
qed

lemma digits_value_snoc:
  "digits_value (xs @ [c]) = 10 * digits_value xs + (of_char c - 48)"
  by (simp add: digits_value_def)

lemma digits_value_digits: "0 \<le> n \<Longrightarrow> digits_value (digits n) = n"
proof (induction n rule: digits.induct)
  case (1 n)
  show ?case
  proof (cases "n < 10")
    case True
    with "1.prems" show ?thesis
      by (subst digits.simps) (simp add: digits_value_def digit_char)
  next
    case False
    with "1.prems" have "digits_value (digits (n div 10)) = n div 10"
      by (intro "1.IH") simp_all
    moreover have "of_char (''0123456789'' ! nat (n mod 10)) = 48 + n mod 10"
      by (intro digit_char) simp_all
    ultimately show ?thesis
      using False by (subst digits.simps) (simp add: digits_value_snoc)
  qed
qed

lemma digits_no_point: "0 \<le> n \<Longrightarrow> CHR ''.'' \<notin> set (digits n)"
proof (induction n rule: digits.induct)
  case (1 n)
  show ?case
  proof (cases "n < 10")
    case True
    with "1.prems" digit_char(2) [of n] show ?thesis
      by (subst digits.simps) auto
  next
    case False
    with "1.prems" have "CHR ''.'' \<notin> set (digits (n div 10))"
      by (intro "1.IH") simp_all
    moreover have "''0123456789'' ! nat (n mod 10) \<noteq> CHR ''.''"
      by (intro digit_char) simp_all
    ultimately show ?thesis
      using False by (subst digits.simps) auto
  qed
qed

lemma digits_value_append:
  "digits_value (xs @ ys) = digits_value xs * 10 ^ length ys + digits_value ys"
proof (induction ys rule: rev_induct)
  case Nil
  then show ?case by (simp add: digits_value_def)
next
  case (snoc c ys)
  have "digits_value (xs @ ys @ [c]) = 10 * digits_value (xs @ ys) + (of_char c - 48)"
    using digits_value_snoc [of "xs @ ys" c] by simp
  with snoc.IH show ?case
    by (simp add: digits_value_snoc algebra_simps)
qed

lemma digits_value_zeros: "digits_value (replicate z (CHR ''0'')) = 0"
proof (induction z)
  case 0
  then show ?case by (simp add: digits_value_def)
next
  case (Suc z)
  have "replicate (Suc z) (CHR ''0'') = replicate z (CHR ''0'') @ [CHR ''0'']"
    by (simp add: replicate_append_same)
  then have "digits_value (replicate (Suc z) (CHR ''0''))
               = 10 * digits_value (replicate z (CHR ''0'')) + (of_char (CHR ''0'') - 48)"
    by (simp only: digits_value_snoc)
  with Suc show ?case by simp
qed

lemma decimal_value_point:
  assumes "CHR ''.'' \<notin> set a"
  shows "decimal_value (a @ ''.'' @ b)
           = of_int (digits_value a) + of_int (digits_value b) / 10 ^ length b"
proof -
  from assms have "takeWhile (\<lambda>c. c \<noteq> CHR ''.'') (a @ ''.'' @ b) = a"
    by (auto simp: takeWhile_tail takeWhile_eq_all_conv)
  then show ?thesis
    by (simp add: decimal_value_def Let_def)
qed

lemma toFixed_8_value:
  assumes "0 \<le> d" and "d < 10 ^ 21"
  shows "decimal_value (toFixed toString (Finite d) 8) = of_int \<lfloor>d * 10 ^ 8 + 1 / 2\<rfloor> / 10 ^ 8"
proof -
  define n where "n = \<lfloor>d * 10 ^ 8 + 1 / 2\<rfloor>"
  define m where "m = (if length (digits n) \<le> 8
                       then replicate (9 - length (digits n)) (CHR ''0'') @ digits n
                       else digits n)"
  from assms(1) have n: "0 \<le> n" by (simp add: n_def)
  have d0: "digits 0 = ''0''" by (subst digits.simps) simp
  have val: "digits_value m = n"
    using n by (simp add: m_def digits_value_append digits_value_zeros digits_value_digits)
  have no_point: "CHR ''.'' \<notin> set m"
    using digits_no_point [OF n] by (auto simp: m_def)
  have len: "8 < length m" by (auto simp: m_def)
  have n_eq: "\<lfloor>d * 100000000 + 1 / 2\<rfloor> = n" by (simp add: n_def)
  have m0: "(if n = 0 then ''0'' else digits n) = digits n" using d0 by simp
  have "toFixed toString (Finite d) 8
          = (let m = (if n = 0 then ''0'' else digits n);
                 m = (if length m \<le> 8 then replicate (9 - length m) (CHR ''0'') @ m else m)
             in take (length m - 8) m @ ''.'' @ drop (length m - 8) m)"
    using assms by (simp add: toFixed_def Let_def n_eq not_le)
  then have shape: "toFixed toString (Finite d) 8
                 = take (length m - 8) m @ ''.'' @ drop (length m - 8) m"
    unfolding m0 Let_def m_def [symmetric] .
  define a where "a = digits_value (take (length m - 8) m)"
  define b where "b = digits_value (drop (length m - 8) m)"
  have "CHR ''.'' \<notin> set (take (length m - 8) m)"
    using no_point by (auto dest: in_set_takeD)
  from decimal_value_point [OF this, of "drop (length m - 8) m"] shape len
  have dec: "decimal_value (toFixed toString (Finite d) 8) = of_int a + of_int b / 10 ^ 8"
    by (simp add: a_def b_def)
  have "digits_value m = a * 10 ^ 8 + b"
    using digits_value_append [of "take (length m - 8) m" "drop (length m - 8) m"] len
    by (simp add: a_def b_def)
  with val have "n = a * 10 ^ 8 + b" by simp
  then have "(of_int n :: rat) = of_int a * 10 ^ 8 + of_int b" by simp
  then have "(of_int n :: rat) / 10 ^ 8 = of_int a + of_int b / 10 ^ 8"
    by (simp add: field_simps)
  with dec show ?thesis by (simp add: n_def)
qed

lemma double_range:
  assumes "1 / 10 ^ 8 \<le> x" and "x < 2 ^ 52"
  shows "(2::rat) powi (- 1022) \<le> x" and "x < 2 powi 1023"
proof -
  have "(2::rat) powi (- 1022) \<le> 2 powi (- 27)"
    by (intro power_int_increasing) simp_all
  also have "\<dots> = 1 / 2 ^ 27"
    by (simp add: power_int_minus inverse_eq_divide)
  also have "\<dots> \<le> 1 / 10 ^ 8" by simp
  finally show "(2::rat) powi (- 1022) \<le> x" using assms(1) by simp
  have "(2::rat) ^ 52 = 2 powi 52" by simp
  also have "\<dots> \<le> 2 powi 1023"
    by (intro power_int_increasing) simp_all
  finally show "x < 2 powi 1023" using assms(2) by simp
qed

lemma round_trip_positive:
  assumes "1 \<le> k" and "k < 2 ^ 51"
  shows "\<exists>d. round_to_double (of_int k / 10 ^ 8) = Finite d \<and> 0 < d \<and> d < 10 ^ 21 \<and>
             \<lfloor>d * 10 ^ 8 + 1 / 2\<rfloor> = k \<and>
             Math_round (round_to_double (d * 100000000)) = Finite (of_int k)"
proof -
  define x where "x = (of_int k :: rat) / 10 ^ 8"
  have k1: "(1::rat) \<le> of_int k" using assms(1) by simp
  have "k \<le> 2 ^ 51 - 1" using assms(2) by simp
  then have "(of_int k :: rat) \<le> of_int (2 ^ 51 - 1)" by (simp only: of_int_le_iff)
  then have k2: "(of_int k :: rat) \<le> 2 ^ 51 - 1" by simp
  have x1: "1 / 10 ^ 8 \<le> x" using k1 by (simp add: x_def divide_right_mono)
  have x2: "x < 2 ^ 52" using k2 by (simp add: x_def field_simps)
  from round_to_double_error [OF double_range [OF x1 x2]] obtain d where
    d: "round_to_double x = Finite d" and derr: "\<bar>d - x\<bar> \<le> x / 2 ^ 53"
    by blast
  define p where "p = d * 10 ^ 8"
  have "p - of_int k = (d - x) * 10 ^ 8" by (simp add: p_def x_def field_simps)
  then have "\<bar>p - of_int k\<bar> = \<bar>d - x\<bar> * \<bar>10 ^ 8\<bar>" by (simp only: abs_mult)
  also have "\<dots> = \<bar>d - x\<bar> * 10 ^ 8" by simp
  also have "\<dots> \<le> x / 2 ^ 53 * 10 ^ 8" using derr by (intro mult_right_mono) simp_all
  also have "\<dots> = of_int k / 2 ^ 53" by (simp add: x_def)
  finally have perr: "\<bar>p - of_int k\<bar> \<le> of_int k / 2 ^ 53" .
  have quarter: "(of_int k :: rat) / 2 ^ 53 < 1 / 4" using k2 by (simp add: field_simps)
  from perr quarter have pk: "\<bar>p - of_int k\<bar> < 1 / 4" by linarith
  have c1: "(1::rat) / 10 ^ 8 \<le> 3 / 4" by simp
  from pk k1 c1 have p1: "1 / 10 ^ 8 \<le> p" by linarith
  from pk k2 have p2: "p < 2 ^ 51" by linarith
  then have p2': "p < 2 ^ 52" by simp
  from round_to_double_error [OF double_range [OF p1 p2']] obtain f where
    f: "round_to_double p = Finite f" and ferr: "\<bar>f - p\<bar> \<le> p / 2 ^ 53"
    by blast
  have "p / 2 ^ 53 < 1 / 4" using p2 by (simp add: field_simps)
  with ferr pk have fk: "\<bar>f - of_int k\<bar> < 1 / 2" by linarith
  then have "of_int k \<le> f + 1 / 2" "f + 1 / 2 < of_int k + 1" by linarith+
  then have "\<lfloor>f + 1 / 2\<rfloor> = k" by (rule floor_unique)
  then have round: "Math_round (round_to_double (d * 100000000)) = Finite (of_int k)"
    using f by (simp add: Math_round_def p_def)
  from pk have "of_int k \<le> p + 1 / 2" "p + 1 / 2 < of_int k + 1" by linarith+
  then have "\<lfloor>p + 1 / 2\<rfloor> = k" by (rule floor_unique)
  then have fixed: "\<lfloor>d * 10 ^ 8 + 1 / 2\<rfloor> = k" by (simp add: p_def)
  from p1 have dpos: "0 < d" by (simp add: p_def field_simps) 
  from p2 have "d < 2 ^ 51 / 10 ^ 8" by (simp add: p_def field_simps)
  then have dsmall: "d < 10 ^ 21" by simp
  from d round fixed dpos dsmall show ?thesis
    unfolding x_def by blast
qed

lemma round_half_even_of_int: "round_half_even (of_int q) = q"
  by (simp add: round_half_even_def)

lemma round_to_double_half_integer:
  assumes "\<bar>m\<bar> < 2 ^ 53"
  shows "round_to_double (of_int m / 2) = Finite (of_int m / 2)"
proof (cases "m = 0")
  case True
  then show ?thesis by (simp add: round_to_double_def)
next
  case False
  define x where "x = (of_int m :: rat) / 2"
  define e where "e = ilog2 \<bar>x\<bar>"
  define ulp where "ulp = (2::rat) powi (e - 52)"
  from False have "1 \<le> \<bar>m\<bar>" by simp
  then have "(of_int 1 :: rat) \<le> of_int \<bar>m\<bar>" by (simp only: of_int_le_iff)
  then have a1: "1 / 2 \<le> \<bar>x\<bar>" by (simp add: x_def)
  from assms have "\<bar>m\<bar> \<le> 2 ^ 53 - 1" by simp
  then have "(of_int \<bar>m\<bar> :: rat) \<le> of_int (2 ^ 53 - 1)" by (simp only: of_int_le_iff)
  then have a2: "\<bar>x\<bar> < 2 ^ 52" by (simp add: x_def)
  from a1 have pos: "0 < \<bar>x\<bar>" by linarith
  from ilog2_bounds [OF pos] have lo: "2 powi e \<le> \<bar>x\<bar>" and hi: "\<bar>x\<bar> < 2 powi (e + 1)"
    by (simp_all add: e_def)
  have "(2::rat) powi (- 1) = 1 / 2" by (simp add: power_int_minus)
  with a1 hi have "(2::rat) powi (- 1) < 2 powi (e + 1)" by simp
  then have e1: "- 1 \<le> e" using two_powi_less_imp_less by fastforce
  have "(2::rat) ^ 52 = 2 powi 52" by simp
  with lo a2 have "(2::rat) powi e < 2 powi 52" by simp
  then have e2: "e < 52" by (rule two_powi_less_imp_less)
  have ulp_pos: "0 < ulp" by (simp add: ulp_def)
  have "1 / 2 / ulp = (2::rat) powi (- 1) / 2 powi (e - 52)"
    by (simp add: ulp_def power_int_minus)
  also have "\<dots> = 2 powi (- 1 - (e - 52))" by (rule power_int_diff [symmetric]) simp
  also have "\<dots> = 2 powi (51 - e)" by simp
  also have "\<dots> = of_int (2 ^ nat (51 - e))" using e2 by (intro two_powi_nonneg) simp
  finally have half: "1 / 2 / ulp = of_int (2 ^ nat (51 - e))" .
  have "x / ulp = of_int m * (1 / 2 / ulp)" by (simp add: x_def)
  also have "\<dots> = of_int (m * 2 ^ nat (51 - e))" by (simp only: half of_int_mult)
  finally have "x / ulp = of_int (m * 2 ^ nat (51 - e))" .
  then have "of_int (round_half_even (x / ulp)) * ulp = x"
    using ulp_pos by (simp only: round_half_even_of_int) (simp add: field_simps)
  moreover have "e \<le> 1023" using e2 by simp
  ultimately have "round_to_double x = Finite x"
    using pos e1
    by (simp add: round_to_double_def Let_def e_def [symmetric] max_absorb1 ulp_def [symmetric])
  then show ?thesis by (simp add: x_def)
qed

text \<open>
  Rounding to a double never crosses an integer: a number below \<open>2^53\<close> in absolute
  value rounds to a double between its floor and its ceiling.
\<close>

lemma round_half_even_upper: "z \<le> of_int m \<Longrightarrow> round_half_even z \<le> m"
proof -
  assume le: "z \<le> of_int m"
  show ?thesis
  proof (cases "z = of_int m")
    case True
    then show ?thesis by (simp add: round_half_even_def)
  next
    case False
    with le have "z < of_int m" by simp
    then have "\<lfloor>z\<rfloor> < m" by (simp add: floor_less_iff)
    then show ?thesis by (simp add: round_half_even_def Let_def)
  qed
qed

lemma round_half_even_lower: "of_int m \<le> z \<Longrightarrow> m \<le> round_half_even z"
proof -
  assume "of_int m \<le> z"
  then have "m \<le> \<lfloor>z\<rfloor>" by (simp add: le_floor_iff)
  then show ?thesis by (simp add: round_half_even_def Let_def)
qed

lemma two_powi_le_imp_le:
  assumes "(2::rat) powi a \<le> 2 powi b"
  shows "a \<le> b"
proof (rule ccontr)
  assume "\<not> a \<le> b"
  then have "b < a" by simp
  then have "(2::rat) powi b < 2 powi a" by (intro power_int_strict_increasing) simp_all
  with assms show False by simp
qed

lemma ilog2_zero: "ilog2 0 = 0"
  by (simp add: ilog2_def bitlen_def floorlog_def)

lemma round_to_double_between:
  assumes "\<bar>x\<bar> < 2 ^ 53"
  shows "\<exists>y. round_to_double x = Finite y \<and> of_int \<lfloor>x\<rfloor> \<le> y \<and> y \<le> of_int \<lceil>x\<rceil>"
proof (cases "x = 0")
  case True
  then show ?thesis by (simp add: round_to_double_def)
next
  case False
  define e where "e = max (ilog2 \<bar>x\<bar>) (- 1022)"
  define ulp where "ulp = (2::rat) powi (e - 52)"
  define y where "y = of_int (round_half_even (x / ulp)) * ulp"
  define N :: int where "N = 2 ^ nat (52 - e)"
  from False have pos: "0 < \<bar>x\<bar>" by simp
  have "(2::rat) powi ilog2 \<bar>x\<bar> \<le> \<bar>x\<bar>" by (rule ilog2_bounds(1) [OF pos])
  also have "\<bar>x\<bar> < 2 powi 53" using assms by simp
  finally have "ilog2 \<bar>x\<bar> < 53" by (rule two_powi_less_imp_less)
  then have e: "e \<le> 52" by (simp add: e_def)
  have ulp_pos: "0 < ulp" by (simp add: ulp_def)
  have "(2::rat) powi (52 - e) = 2 powi (- (e - 52))" by simp
  also have "\<dots> = inverse (2 powi (e - 52))" by (rule power_int_minus)
  finally have "1 / ulp = (2::rat) powi (52 - e)" by (simp add: ulp_def inverse_eq_divide)
  also have "\<dots> = of_int N" unfolding N_def using e by (intro two_powi_nonneg) simp
  finally have inv: "1 / ulp = of_int N" .
  have scaled: "of_int k / ulp = of_int (k * N)" for k :: int
  proof -
    have "of_int k / ulp = of_int k * (1 / ulp)" by simp
    also have "\<dots> = of_int (k * N)" by (simp only: inv of_int_mult)
    finally show ?thesis .
  qed
  have unscaled: "of_int (k * N) * ulp = of_int k" for k :: int
    using scaled [of k] ulp_pos by (simp add: field_simps)
  have "x / ulp \<le> of_int \<lceil>x\<rceil> / ulp"
    using ulp_pos by (intro divide_right_mono) simp_all
  then have "x / ulp \<le> of_int (\<lceil>x\<rceil> * N)" by (simp only: scaled)
  then have "round_half_even (x / ulp) \<le> \<lceil>x\<rceil> * N" by (rule round_half_even_upper)
  then have "(of_int (round_half_even (x / ulp)) :: rat) \<le> of_int (\<lceil>x\<rceil> * N)"
    by (simp only: of_int_le_iff)
  then have "y \<le> of_int (\<lceil>x\<rceil> * N) * ulp"
    unfolding y_def using ulp_pos by (intro mult_right_mono) simp_all
  then have upper: "y \<le> of_int \<lceil>x\<rceil>" by (simp only: unscaled)
  have "of_int \<lfloor>x\<rfloor> / ulp \<le> x / ulp"
    using ulp_pos by (intro divide_right_mono) simp_all
  then have "of_int (\<lfloor>x\<rfloor> * N) \<le> x / ulp" by (simp only: scaled)
  then have "\<lfloor>x\<rfloor> * N \<le> round_half_even (x / ulp)" by (rule round_half_even_lower)
  then have "(of_int (\<lfloor>x\<rfloor> * N) :: rat) \<le> of_int (round_half_even (x / ulp))"
    by (simp only: of_int_le_iff)
  then have "of_int (\<lfloor>x\<rfloor> * N) * ulp \<le> y"
    unfolding y_def using ulp_pos by (intro mult_right_mono) simp_all
  then have lower: "of_int \<lfloor>x\<rfloor> \<le> y" by (simp only: unscaled)
  have "x < 2 ^ 53" "- (2 ^ 53) < x" using assms by (simp_all add: abs_less_iff)
  then have c1: "\<lceil>x\<rceil> \<le> 2 ^ 53" and c2: "- (2 ^ 53) \<le> \<lfloor>x\<rfloor>"
    by (simp_all add: ceiling_le_iff le_floor_iff less_imp_le)
  from c1 have "(of_int \<lceil>x\<rceil> :: rat) \<le> of_int (2 ^ 53)" by (simp only: of_int_le_iff)
  also have "(of_int (2 ^ 53) :: rat) = 2 ^ 53" by simp
  finally have up: "(of_int \<lceil>x\<rceil> :: rat) \<le> 2 ^ 53" .
  have "(- (2 ^ 53) :: rat) = of_int (- (2 ^ 53))" by simp
  also from c2 have "\<dots> \<le> of_int \<lfloor>x\<rfloor>" by (simp only: of_int_le_iff)
  finally have low: "(- (2 ^ 53) :: rat) \<le> of_int \<lfloor>x\<rfloor>" .
  from upper lower up low have ybound: "\<bar>y\<bar> \<le> 2 ^ 53" by linarith
  have fin: "ilog2 \<bar>y\<bar> \<le> 1023"
  proof (cases "y = 0")
    case True
    then show ?thesis by (simp add: ilog2_zero)
  next
    case False
    then have "0 < \<bar>y\<bar>" by simp
    from ilog2_bounds(1) [OF this] ybound have "(2::rat) powi ilog2 \<bar>y\<bar> \<le> 2 powi 53" by simp
    then have "ilog2 \<bar>y\<bar> \<le> 53" by (rule two_powi_le_imp_le)
    then show ?thesis by simp
  qed
  have "round_to_double x = Finite y"
    using False fin
    by (simp add: round_to_double_def Let_def e_def [symmetric] ulp_def [symmetric] y_def [symmetric])
  with lower upper show ?thesis by blast
qed


text \<open>
  With fewer than \<open>2^32\<close> supplied outputs (the bound here is far weaker) every step
  of the size estimate is a half-integer below \<open>2^52\<close> and therefore a double: the
  double-precision sum is the exact \<open>estimatedSize\<close>.
\<close>

lemma estimatedSize_exact:
  assumes size: "115 * int (length utxos) + 193 < 2 ^ 53"
  shows "estimatedSize_number utxos = Finite (estimatedSize utxos)"
proof -
  define n where "n = int (length utxos)"
  have n0: "0 \<le> n" by (simp add: n_def)
  have b1: "\<bar>115 * n\<bar> < 2 ^ 53" and b2: "\<bar>115 * n + 172\<bar> < 2 ^ 53"
    and b3: "\<bar>115 * n + 193\<bar> < 2 ^ 53"
    using size n0 by (simp_all add: n_def)
  have a1: "of_nat (length utxos) * (57.5::rat) = of_int (115 * n) / 2"
    by (simp add: n_def)
  have a2: "(2::rat) * 43 = of_int 172 / 2" by simp
  have a3: "of_int (115 * n) / 2 + of_int 172 / (2::rat) = of_int (115 * n + 172) / 2"
    by (simp add: add_divide_distrib)
  have a4: "of_int (115 * n + 172) / 2 + (10.5::rat) = of_int (115 * n + 193) / 2"
    by (simp add: add_divide_distrib)
  have exact: "estimatedSize utxos = of_int (115 * n + 193) / 2"
    by (simp add: estimatedSize_def n_def algebra_simps)
  have b0: "\<bar>172::int\<bar> < 2 ^ 53" by simp
  have s1: "js_times (Finite (of_nat (length utxos))) (Finite 57.5) = Finite (of_int (115 * n) / 2)"
    by (simp only: js_times.simps a1 round_to_double_half_integer [OF b1])
  have s2: "js_times (Finite 2) (Finite 43) = Finite (of_int 172 / 2)"
    by (simp only: js_times.simps a2 round_to_double_half_integer [OF b0])
  have s3: "js_plus (Finite (of_int (115 * n) / 2)) (Finite (of_int 172 / 2))
              = Finite (of_int (115 * n + 172) / 2)"
    by (simp only: js_plus.simps a3 round_to_double_half_integer [OF b2])
  have s4: "js_plus (Finite (of_int (115 * n + 172) / 2)) (Finite 10.5)
              = Finite (of_int (115 * n + 193) / 2)"
    by (simp only: js_plus.simps a4 round_to_double_half_integer [OF b3])
  show ?thesis
    unfolding estimatedSize_number_def by (simp only: s1 s2 s3 s4 exact)
qed

text \<open>
  For an integral fee rate, as the fee schedule supplies it, the product of the size
  and the rate is a half-integer as well: no rounding takes place.
\<close>

lemma estimatedFee_integral_rate:
  assumes product: "\<bar>(115 * int (length utxos) + 193) * r\<bar> < 2 ^ 53"
  shows "estimatedFee utxos (of_int r) = Finite (of_int \<lceil>estimatedSize utxos * of_int r\<rceil>)"
proof -
  have exact: "estimatedSize utxos * of_int r = of_int ((115 * int (length utxos) + 193) * r) / 2"
    by (simp add: estimatedSize_def algebra_simps)
  have "js_times (Finite (estimatedSize utxos)) (Finite (of_int r))
          = Finite (estimatedSize utxos * of_int r)"
    by (simp only: js_times.simps exact round_to_double_half_integer [OF product])
  then show ?thesis
    by (simp add: estimatedFee_def Math_ceil_def)
qed


text \<open>
  In general the rounded product lies between the floor and the ceiling of the exact
  product, so the fee is the ceiling of the exact product or one less.
\<close>

lemma estimatedFee_bounds:
  assumes "\<bar>estimatedSize utxos * feeRate\<bar> < 2 ^ 53"
  shows "\<exists>f. estimatedFee utxos feeRate = Finite (of_int f) \<and>
             \<lceil>estimatedSize utxos * feeRate\<rceil> - 1 \<le> f \<and> f \<le> \<lceil>estimatedSize utxos * feeRate\<rceil>"
proof -
  define x where "x = estimatedSize utxos * feeRate"
  from round_to_double_between [OF assms] obtain y where
    y: "round_to_double x = Finite y" and lower: "of_int \<lfloor>x\<rfloor> \<le> y" and upper: "y \<le> of_int \<lceil>x\<rceil>"
    unfolding x_def by blast
  from upper have "\<lceil>y\<rceil> \<le> \<lceil>x\<rceil>" by (simp add: ceiling_le_iff)
  moreover from lower have "\<lfloor>x\<rfloor> \<le> \<lceil>y\<rceil>" by (simp add: le_ceiling_iff)
  moreover have "\<lceil>x\<rceil> - 1 \<le> \<lfloor>x\<rfloor>" by linarith
  ultimately have "\<lceil>x\<rceil> - 1 \<le> \<lceil>y\<rceil> \<and> \<lceil>y\<rceil> \<le> \<lceil>x\<rceil>" by simp
  moreover have "estimatedFee utxos feeRate = Finite (of_int \<lceil>y\<rceil>)"
    using y by (simp add: estimatedFee_def Math_ceil_def x_def)
  ultimately show ?thesis unfolding x_def by blast
qed

text \<open>
  \<open>floor (y + 1/2)\<close>, by which \<open>Math.round\<close> and \<open>toFixed\<close> are modelled, is the
  integer nearest to \<open>y\<close>, and the larger one of two nearest integers.
\<close>

lemma nearest_integer:
  fixes y :: rat
  defines "n \<equiv> \<lfloor>y + 1 / 2\<rfloor>"
  shows "\<bar>of_int n - y\<bar> \<le> \<bar>of_int m - y\<bar>"
    and "\<bar>of_int m - y\<bar> = \<bar>of_int n - y\<bar> \<Longrightarrow> m \<le> n"
proof -
  have lo: "of_int n \<le> y + 1 / 2" and hi: "y + 1 / 2 < of_int n + 1"
    unfolding n_def by linarith+
  have below: "of_int m - y \<le> - 1 / 2" if "m < n"
  proof -
    from that have "m \<le> n - 1" by simp
    then have "(of_int m :: rat) \<le> of_int (n - 1)" by (simp only: of_int_le_iff)
    with lo show ?thesis by simp
  qed
  have above: "1 / 2 < of_int m - y" if "n < m"
  proof -
    from that have "n + 1 \<le> m" by simp
    then have "(of_int (n + 1) :: rat) \<le> of_int m" by (simp only: of_int_le_iff)
    with hi show ?thesis by simp
  qed
  show "\<bar>of_int n - y\<bar> \<le> \<bar>of_int m - y\<bar>"
  proof (cases m n rule: linorder_cases)
    case less
    from below [OF less] lo hi show ?thesis by linarith
  next
    case equal
    then show ?thesis by simp
  next
    case greater
    from above [OF greater] lo hi show ?thesis by linarith
  qed
  show "m \<le> n" if "\<bar>of_int m - y\<bar> = \<bar>of_int n - y\<bar>"
  proof (rule ccontr)
    assume "\<not> m \<le> n"
    then have "n < m" by simp
    from above [OF this] lo hi that show False by linarith
  qed
qed
section \<open>The fee\<close>

text \<open>
  Claim C1, as amended.  Whenever the builder returns a fee for \<open>n\<close> supplied outputs
  and a fee rate \<open>r\<close>, the fee is \<open>Math.ceil\<close> of the double-precision product of
  \<open>57.5 * n + 2 * 43 + 10.5\<close> and \<open>r\<close>: the estimate for two outputs, whatever the
  amount sent and whether or not a change output is created.  When the exact product
  is below \<open>2^53\<close> in absolute value, the fee is \<open>ceil((57.5 * n + 2 * 43 + 10.5) * r)\<close>
  or one less.  For an integral fee rate with \<open>(115 * n + 193) * |r| < 2^53\<close> the
  product is exact and the fee is \<open>ceil((57.5 * n + 2 * 43 + 10.5) * r)\<close>.
\<close>

theorem fee_formula:
  assumes "fst (createBitcoinTransaction L privateKeyHex toAddress amountSats utxos feeRate network s) = Inr res"
  shows "fee res = Math_ceil (round_to_double ((57.5 * of_nat (length utxos) + 2 * 43 + 10.5) * feeRate)) \<and>
         (\<bar>(57.5 * of_nat (length utxos) + 2 * 43 + 10.5) * feeRate\<bar> < 2 ^ 53 \<longrightarrow>
            (\<exists>f. fee res = Finite (of_int f) \<and>
                 \<lceil>(57.5 * of_nat (length utxos) + 2 * 43 + 10.5) * feeRate\<rceil> - 1 \<le> f \<and>
                 f \<le> \<lceil>(57.5 * of_nat (length utxos) + 2 * 43 + 10.5) * feeRate\<rceil>)) \<and>
         (\<forall>r. feeRate = of_int r \<and> \<bar>(115 * int (length utxos) + 193) * r\<bar> < 2 ^ 53 \<longrightarrow>
            fee res = Finite (of_int \<lceil>(57.5 * of_nat (length utxos) + 2 * 43 + 10.5) * (of_int r :: rat)\<rceil>))"
proof (intro conjI allI impI)
  have size: "estimatedSize utxos = 57.5 * of_nat (length utxos) + 2 * 43 + 10.5"
    by (simp add: estimatedSize_def mult.commute)
  note paid = createBitcoinTransaction_fee [OF assms]
  from paid
  show "fee res = Math_ceil (round_to_double ((57.5 * of_nat (length utxos) + 2 * 43 + 10.5) * feeRate))"
    by (simp only: estimatedFee_def js_times.simps size)
  show "\<exists>f. fee res = Finite (of_int f) \<and>
            \<lceil>(57.5 * of_nat (length utxos) + 2 * 43 + 10.5) * feeRate\<rceil> - 1 \<le> f \<and>
            f \<le> \<lceil>(57.5 * of_nat (length utxos) + 2 * 43 + 10.5) * feeRate\<rceil>"
    if "\<bar>(57.5 * of_nat (length utxos) + 2 * 43 + 10.5) * feeRate\<bar> < 2 ^ 53"
  proof -
    from that have "\<bar>estimatedSize utxos * feeRate\<bar> < 2 ^ 53" by (simp only: size)
    from estimatedFee_bounds [OF this] paid show ?thesis by (simp only: size)
  qed
  fix r
  assume "feeRate = of_int r \<and> \<bar>(115 * int (length utxos) + 193) * r\<bar> < 2 ^ 53"
  then have rate: "feeRate = of_int r" and bound: "\<bar>(115 * int (length utxos) + 193) * r\<bar> < 2 ^ 53"
    by simp_all
  from paid estimatedFee_integral_rate [OF bound] rate
  show "fee res = Finite (of_int \<lceil>(57.5 * of_nat (length utxos) + 2 * 43 + 10.5) * (of_int r :: rat)\<rceil>)"
    by (simp only: size)
qed

text \<open>
  Two runs with one input at 10 sat/vB: one sends 50000 and creates a change output,
  the other sends 50100 and creates none; both return the fee 1540.  A third run at
  one eleventh of a satoshi per virtual byte returns 14, one less than the ceiling 15
  of the exact product.
\<close>

theorem fee_formula_witness:
  "(\<exists>res. fst (createBitcoinTransaction sample_library sample_key sample_recipient 50000
               [sample_utxo 100000] 10 mainnet main) = Inr res \<and> fee res = Finite 1540) \<and>
   (\<exists>res. fst (createBitcoinTransaction sample_library sample_key sample_recipient 50100
               [sample_utxo 52040] 10 mainnet main) = Inr res \<and> fee res = Finite 1540) \<and>
   (\<exists>res f. fst (createBitcoinTransaction sample_library sample_key sample_recipient 50000
               [sample_utxo 100000] sample_feeRate mainnet main) = Inr res \<and>
            fee res = Finite (of_int f) \<and> 15 - 1 \<le> f \<and> f \<le> 15)"
proof -
  let ?a = "fst (createBitcoinTransaction sample_library sample_key sample_recipient 50000
               [sample_utxo 100000] 10 mainnet main)"
  let ?b = "fst (createBitcoinTransaction sample_library sample_key sample_recipient 50100
               [sample_utxo 52040] 10 mainnet main)"
  let ?c = "fst (createBitcoinTransaction sample_library sample_key sample_recipient 50000
               [sample_utxo 100000] sample_feeRate mainnet main)"
  have "map_sum id (\<lambda>r. ()) ?a = Inr ()" by code_simp
  then obtain ra where a: "?a = Inr ra" by (cases ?a) auto
  have "map_sum id (\<lambda>r. ()) ?b = Inr ()" by code_simp
  then obtain rb where b: "?b = Inr rb" by (cases ?b) auto
  have "map_sum id (\<lambda>r. ()) ?c = Inr ()" by code_simp
  then obtain rc where c: "?c = Inr rc" by (cases ?c) auto
  have rate: "(10::rat) = of_int 10" by simp
  have bound: "\<bar>(115 * int (length [u]) + 193) * 10\<bar> < (2::int) ^ 53" for u :: UTXO by simp
  from fee_formula [OF a] rate bound have "fee ra = Finite (of_int
      \<lceil>(57.5 * of_nat (length [sample_utxo 100000]) + 2 * 43 + 10.5) * (of_int 10 :: rat)\<rceil>)"
    by blast
  then have fa: "fee ra = Finite 1540" by simp
  from fee_formula [OF b] rate bound have "fee rb = Finite (of_int
      \<lceil>(57.5 * of_nat (length [sample_utxo 52040]) + 2 * 43 + 10.5) * (of_int 10 :: rat)\<rceil>)"
    by blast
  then have fb: "fee rb = Finite 1540" by simp
  have small: "\<bar>(57.5 * of_nat (length [sample_utxo 100000]) + 2 * 43 + 10.5) * sample_feeRate\<bar> < 2 ^ 53"
    by code_simp
  have ceil: "\<lceil>(57.5 * of_nat (length [sample_utxo 100000]) + 2 * 43 + 10.5) * sample_feeRate\<rceil> = 15"
    by code_simp
  from fee_formula [OF c] small obtain f where
    "fee rc = Finite (of_int f)"
    "\<lceil>(57.5 * of_nat (length [sample_utxo 100000]) + 2 * 43 + 10.5) * sample_feeRate\<rceil> - 1 \<le> f"
    "f \<le> \<lceil>(57.5 * of_nat (length [sample_utxo 100000]) + 2 * 43 + 10.5) * sample_feeRate\<rceil>"
    by blast
  then have fc: "fee rc = Finite (of_int f) \<and> 15 - 1 \<le> f \<and> f \<le> 15"
    by (simp only: ceil)
  from a fa have first: "\<exists>res. ?a = Inr res \<and> fee res = Finite 1540" by blast
  from b fb have second: "\<exists>res. ?b = Inr res \<and> fee res = Finite 1540" by blast
  from c fc have third: "\<exists>res f. ?c = Inr res \<and> fee res = Finite (of_int f) \<and> 15 - 1 \<le> f \<and> f \<le> 15"
    by blast
  from first second third show ?thesis by (intro conjI)
qed

text \<open>
  Claim C1 as stated fails for a fee rate whose product with the size is not a double.
  At one eleventh of a satoshi per virtual byte, the fee rate \<open>0.09090909090909091\<close>,
  the exact product with the size 154 of one input is a little more than 14, so the
  formula gives 15; the double-precision product is 14, and the builder returns 14.
\<close>

theorem fee_formula_counterexample:
  "round_to_double (9090909090909091 / 10 ^ 17) = Finite sample_feeRate \<and>
   map_sum id fee (fst (createBitcoinTransaction sample_library sample_key sample_recipient 50000
       [sample_utxo 100000] sample_feeRate mainnet main)) = Inr (Finite 14) \<and>
   \<lceil>(57.5 * of_nat (length [sample_utxo 100000]) + 2 * 43 + 10.5) * sample_feeRate\<rceil> = (15::int)"
  by code_simp

section \<open>Insufficient funds\<close>

text \<open>
  Claim C2, as amended.  When the values of the supplied outputs sum to less than
  \<open>amountSats\<close> plus the estimated fee (the comparison of numbers that the code
  makes), the builder returns no transaction: it fails.  When the key pair, the change
  address and every input were accepted before the balance is checked, the failure is
  the insufficient-funds error, which reports \<open>amountSats + estimatedFee\<close> as required
  and the sum of the values as available; otherwise it is the error of that earlier
  step.
\<close>

theorem insufficient_funds:
  assumes "js_less (Finite (of_int (sum_list (map utxo_value utxos))))
             (sats_plus amountSats (estimatedFee utxos feeRate))"
  shows "(\<exists>e. fst (createBitcoinTransaction L privateKeyHex toAddress amountSats utxos feeRate network s) = Inl e) \<and>
         (\<forall>x. loadInputs L privateKeyHex utxos (getNetwork network) (getECPair s) = Inr x \<longrightarrow>
            fst (createBitcoinTransaction L privateKeyHex toAddress amountSats utxos feeRate network s)
              = Inl (InsufficientFunds (sats_plus amountSats (estimatedFee utxos feeRate))
                       (sum_list (map utxo_value utxos)))) \<and>
         (\<forall>e. loadInputs L privateKeyHex utxos (getNetwork network) (getECPair s) = Inl e \<longrightarrow>
            fst (createBitcoinTransaction L privateKeyHex toAddress amountSats utxos feeRate network s) = Inl e)"
proof -
  let ?r = "fst (createBitcoinTransaction L privateKeyHex toAddress amountSats utxos feeRate network s)"
  let ?x = "loadInputs L privateKeyHex utxos (getNetwork network) (getECPair s)"
  have early: "?r = Inl e" if "?x = Inl e" for e
    using that by (simp add: createBitcoinTransaction_def signedTransaction_def bindS_def)
  have funds: "?r = Inl (InsufficientFunds (sats_plus amountSats (estimatedFee utxos feeRate))
                       (sum_list (map utxo_value utxos)))" if loaded: "?x = Inr x" for x
  proof -
    obtain k i c p t where x: "x = (k, i, c, p, t)" by (cases x)
    from loadInputs_Inr [OF loaded [unfolded x]] have t: "t = sum_list (map utxo_value utxos)"
      by simp
    from assms have "js_less (sats_minus (t - amountSats) (estimatedFee utxos feeRate)) (Finite 0)"
      by (simp only: change_negative_iff t)
    with loaded x t show ?thesis
      by (simp add: createBitcoinTransaction_def signedTransaction_def bindS_def Let_def)
  qed
  have "\<exists>e. ?r = Inl e"
  proof (cases ?x)
    case (Inl e)
    with early show ?thesis by blast
  next
    case (Inr x)
    with funds show ?thesis by blast
  qed
  with early funds show ?thesis by blast
qed

text \<open>
  One output of 1000 satoshis cannot fund 50000 plus the fee of 1540; and when the
  same output is supplied twice, the error is that of the duplicate input.
\<close>

theorem insufficient_funds_witness:
  "js_less (Finite (of_int (sum_list (map utxo_value [sample_utxo 1000]))))
     (sats_plus 50000 (estimatedFee [sample_utxo 1000] 10)) \<and>
   fst (createBitcoinTransaction sample_library sample_key sample_recipient 50000
          [sample_utxo 1000] 10 mainnet main) = Inl (InsufficientFunds (Finite 51540) 1000) \<and>
   js_less (Finite (of_int (sum_list (map utxo_value [sample_utxo 1000, sample_utxo 1000]))))
     (sats_plus 50000 (estimatedFee [sample_utxo 1000, sample_utxo 1000] 10)) \<and>
   fst (createBitcoinTransaction sample_library sample_key sample_recipient 50000
          [sample_utxo 1000, sample_utxo 1000] 10 mainnet main)
     = Inl (LibraryError ''Duplicate input detected.'')"
proof -
  let ?x = "loadInputs sample_library sample_key [sample_utxo 1000] (getNetwork mainnet) (getECPair main)"
  let ?y = "loadInputs sample_library sample_key [sample_utxo 1000, sample_utxo 1000]
              (getNetwork mainnet) (getECPair main)"
  have short: "js_less (Finite (of_int (sum_list (map utxo_value [sample_utxo 1000]))))
     (sats_plus 50000 (estimatedFee [sample_utxo 1000] 10))"
    by code_simp
  have short2: "js_less (Finite (of_int (sum_list (map utxo_value [sample_utxo 1000, sample_utxo 1000]))))
     (sats_plus 50000 (estimatedFee [sample_utxo 1000, sample_utxo 1000] 10))"
    by code_simp
  have loaded: "?x = Inr (projr ?x)" by code_simp
  have refused: "?y = Inl (LibraryError ''Duplicate input detected.'')" by code_simp
  have need: "sats_plus 50000 (estimatedFee [sample_utxo 1000] 10) = Finite 51540" by code_simp
  have have_: "sum_list (map utxo_value [sample_utxo 1000]) = 1000" by code_simp
  from insufficient_funds [OF short, where L = sample_library and privateKeyHex = sample_key
      and network = mainnet and s = main and toAddress = sample_recipient] loaded
  have "fst (createBitcoinTransaction sample_library sample_key sample_recipient 50000
          [sample_utxo 1000] 10 mainnet main)
        = Inl (InsufficientFunds (sats_plus 50000 (estimatedFee [sample_utxo 1000] 10))
                 (sum_list (map utxo_value [sample_utxo 1000])))"
    by blast
  then have first: "fst (createBitcoinTransaction sample_library sample_key sample_recipient 50000
          [sample_utxo 1000] 10 mainnet main) = Inl (InsufficientFunds (Finite 51540) 1000)"
    by (simp only: need have_)
  from insufficient_funds [OF short2, where L = sample_library and privateKeyHex = sample_key
      and network = mainnet and s = main and toAddress = sample_recipient] refused
  have second: "fst (createBitcoinTransaction sample_library sample_key sample_recipient 50000
          [sample_utxo 1000, sample_utxo 1000] 10 mainnet main)
     = Inl (LibraryError ''Duplicate input detected.'')"
    by blast
  from short first short2 second show ?thesis by (intro conjI)
qed

text \<open>
  Claim C2 as stated fails: the private key is read before the balance is checked, so
  with a key of the wrong length the error is the library's, although no funds are
  supplied at all.
\<close>

theorem insufficient_funds_counterexample:
  "js_less (Finite (of_int (sum_list (map utxo_value [])))) (sats_plus 1000 (estimatedFee [] 1)) \<and>
   fst (createBitcoinTransaction sample_library [] sample_recipient 1000 [] 1 mainnet main)
     = Inl (LibraryError ''Expected Buffer(Length: 32)'')"
  by code_simp

section \<open>Destination and change outputs\<close>



section \<open>Inputs, outputs and the returned fee\<close>




section \<open>The scenario with one output of 100000 satoshis\<close>

text \<open>
  Claim C5, as amended.  With one spendable output of value 100000, the amount 50000
  and the fee rate 10, the estimated size is \<open>57.5 + 2 * 43 + 10.5 = 154\<close>, so a
  successful build returns the fee 1540 and computes the change 48460, which is above
  the dust limit: the transaction has the destination output and the change output.
\<close>

theorem scenario_100000:
  assumes "fst (createBitcoinTransaction L privateKeyHex toAddress 50000 [utxo] 10 network s) = Inr res"
    and "utxo_value utxo = 100000"
  shows "fee res = Finite 1540 \<and>
         sum_list (map utxo_value [utxo]) - 50000 - 1540 = 48460 \<and>
         dustLimit < 48460 \<and>
         (\<exists>tx keyPair internalPubkey changeAddress.
            fst (signedTransaction L privateKeyHex toAddress 50000 [utxo] 10 network (getECPair s))
              = Inr (tx, Finite 1540) \<and>
            txHex res = toHex L tx \<and>
            senderKeys L privateKeyHex (getNetwork network) (getECPair s)
              = Inr (keyPair, internalPubkey, changeAddress) \<and>
            outs tx = [\<lparr>out_address = toAddress, out_value = 50000\<rparr>,
                       \<lparr>out_address = changeAddress, out_value = 48460\<rparr>])"
proof -
  have "\<bar>(115 * int (length [utxo]) + 193) * 10\<bar> < (2::int) ^ 53" by simp
  from estimatedFee_integral_rate [OF this]
  have est: "estimatedFee [utxo] 10 = Finite 1540"
    by (simp add: estimatedSize_def)
  from createBitcoinTransaction_Inr [OF assms(1)] obtain tx where
    tx: "fst (signedTransaction L privateKeyHex toAddress 50000 [utxo] 10 network (getECPair s))
           = Inr (tx, fee res)"
    and hex: "txHex res = toHex L tx"
    by blast
  from signedTransaction_Inr [OF tx] est assms(2) obtain keyPair internalPubkey changeAddress where
    keys: "senderKeys L privateKeyHex (getNetwork network) (getECPair s)
       = Inr (keyPair, internalPubkey, changeAddress)"
    and f: "fee res = Finite 1540"
    and outs: "outs tx = [\<lparr>out_address = toAddress, out_value = 50000\<rparr>,
                       \<lparr>out_address = changeAddress, out_value = 48460\<rparr>]"
    by auto
  from tx hex keys f outs assms(2) show ?thesis
    by (auto simp: dustLimit_def)
qed

theorem scenario_100000_witness:
  "utxo_value (sample_utxo 100000) = 100000 \<and>
   (\<exists>res. fst (createBitcoinTransaction sample_library sample_key sample_recipient 50000
             [sample_utxo 100000] 10 mainnet main) = Inr res \<and> fee res = Finite 1540) \<and>
   (\<exists>tx. fst (signedTransaction sample_library sample_key sample_recipient 50000 [sample_utxo 100000] 10
            mainnet (getECPair main)) = Inr (tx, Finite 1540) \<and>
          outs tx = [\<lparr>out_address = sample_recipient, out_value = 50000\<rparr>,
                     \<lparr>out_address = sample_address, out_value = 48460\<rparr>])"
proof -
  let ?a = "fst (createBitcoinTransaction sample_library sample_key sample_recipient 50000
               [sample_utxo 100000] 10 mainnet main)"
  let ?k = "senderKeys sample_library sample_key (getNetwork mainnet) (getECPair main)"
  have keys: "snd (snd (projr ?k)) = sample_address" by code_simp
  have a: "?a = Inr (projr ?a)" by code_simp
  have v: "utxo_value (sample_utxo 100000) = 100000" by code_simp
  from scenario_100000 [OF a v] keys a v show ?thesis
    by (intro conjI) (simp, metis, auto)
qed

text \<open>
  Claim C5 as stated fails: the fee is 1540 and the change 48460, not 1535 and 48465.
\<close>

theorem scenario_100000_counterexample:
  "map_sum id fee (fst (createBitcoinTransaction sample_library sample_key sample_recipient 50000
       [sample_utxo 100000] 10 mainnet main)) = Inr (Finite 1540) \<and>
   map_sum id (map out_value \<circ> outs \<circ> fst)
     (fst (signedTransaction sample_library sample_key sample_recipient 50000 [sample_utxo 100000] 10
        mainnet (getECPair main))) = Inr [50000, 48460] \<and>
   (1540::rat) \<noteq> 1535 \<and> (48460::int) \<noteq> 48465"
  by code_simp

section \<open>Network parameters and explorer addresses\<close>

text \<open>
  Claim C6.  \<open>getNetwork\<close> and \<open>getApiUrl\<close> are total on the three profiles and
  raise nothing.  \<open>testnet\<close> and \<open>testnet4\<close> have the same chain parameters, hence the
  same derived addresses, and the three explorer addresses are pairwise different.
\<close>

theorem network_parameters:
  "getNetwork mainnet = networks_bitcoin \<and>
   getNetwork testnet = networks_testnet \<and>
   getNetwork testnet4 = networks_testnet \<and>
   getNetwork testnet = getNetwork testnet4 \<and>
   nostrPubkeyToBitcoinAddress L pubkeyHex testnet s = nostrPubkeyToBitcoinAddress L pubkeyHex testnet4 s \<and>
   getApiUrl mainnet = ''https://mempool.space/api'' \<and>
   getApiUrl testnet = ''https://mempool.space/testnet/api'' \<and>
   getApiUrl testnet4 = ''https://mempool.space/testnet4/api'' \<and>
   getApiUrl mainnet \<noteq> getApiUrl testnet \<and>
   getApiUrl mainnet \<noteq> getApiUrl testnet4 \<and>
   getApiUrl testnet \<noteq> getApiUrl testnet4"
  by (simp add: getNetwork_def getApiUrl_def nostrPubkeyToBitcoinAddress_def)
section \<open>Results of address derivation\<close>

lemma address_cases:
  "nostrPubkeyToBitcoinAddress L pubkeyHex network s =
     (if length (Buffer_from_hex pubkeyHex) = 32 \<and> eccLib s
      then (case tweakKey L (Buffer_from_hex pubkeyHex) of
              None \<Rightarrow> (Inr [], s)
            | Some pubkey \<Rightarrow> (Inr (bech32m_encode L (bech32 (getNetwork network)) pubkey), s))
      else (Inr [], s))"
  by (auto simp: nostrPubkeyToBitcoinAddress_def p2tr_def try_catch_def bindE_def or_empty_def
      Let_def split: option.splits)

text \<open>
  Claim C7, as amended.  Deriving an address changes no state, and its result is a
  function of the public key, the network and one more thing: whether the ECC backend
  of bitcoinjs-lib is installed.  Two calls with the same key and network return the
  same string when the backend is in the same state at both calls.  While the backend
  is not installed the result is the empty string for every key.  The start-up code
  of the application and the first call of the builder install it, and the builder
  never removes it.
\<close>

theorem address_deterministic:
  "snd (nostrPubkeyToBitcoinAddress L pubkeyHex network s) = s \<and>
   (eccLib s = eccLib s' \<longrightarrow>
      fst (nostrPubkeyToBitcoinAddress L pubkeyHex network s)
        = fst (nostrPubkeyToBitcoinAddress L pubkeyHex network s')) \<and>
   (\<not> eccLib s \<longrightarrow> fst (nostrPubkeyToBitcoinAddress L pubkeyHex network s) = Inr []) \<and>
   (eccLib s \<or> \<not> ECPair s \<longrightarrow>
      eccLib (snd (createBitcoinTransaction L privateKeyHex toAddress amountSats utxos feeRate
                     network' s)))"
proof (intro conjI impI)
  show "snd (nostrPubkeyToBitcoinAddress L pubkeyHex network s) = s"
    by (simp add: nostrPubkeyToBitcoinAddress_def)
  show "fst (nostrPubkeyToBitcoinAddress L pubkeyHex network s)
        = fst (nostrPubkeyToBitcoinAddress L pubkeyHex network s')" if "eccLib s = eccLib s'"
    using that by (simp add: address_cases split: option.splits)
  show "fst (nostrPubkeyToBitcoinAddress L pubkeyHex network s) = Inr []" if "\<not> eccLib s"
    using that by (simp add: address_cases)
  show "eccLib (snd (createBitcoinTransaction L privateKeyHex toAddress amountSats utxos feeRate
                     network' s))" if "eccLib s \<or> \<not> ECPair s"
    using that by (auto simp: eccLib_createBitcoinTransaction getECPair_def initEccLib_def)
qed

text \<open>
  After the start-up code has run, the same key gives the same address before and
  after a transaction was built.
\<close>

theorem address_deterministic_witness:
  "eccLib main = eccLib (snd (createBitcoinTransaction sample_library sample_key sample_recipient 50000
                                [sample_utxo 100000] 10 mainnet main)) \<and>
   fst (nostrPubkeyToBitcoinAddress sample_library sample_pubkey mainnet main) = Inr sample_address \<and>
   fst (nostrPubkeyToBitcoinAddress sample_library sample_pubkey mainnet
          (snd (createBitcoinTransaction sample_library sample_key sample_recipient 50000
                  [sample_utxo 100000] 10 mainnet main)))
     = Inr sample_address \<and>
   snd (nostrPubkeyToBitcoinAddress sample_library sample_pubkey mainnet main) = main"
proof -
  let ?s = "snd (createBitcoinTransaction sample_library sample_key sample_recipient 50000
             [sample_utxo 100000] 10 mainnet main)"
  note facts = address_deterministic [of sample_library sample_pubkey mainnet main ?s
      sample_key sample_recipient 50000 "[sample_utxo 100000]" 10 mainnet]
  have installed: "eccLib main" by (simp add: main_def fresh_def initEccLib_def)
  with facts have after: "eccLib ?s" by blast
  have v: "fst (nostrPubkeyToBitcoinAddress sample_library sample_pubkey mainnet main) = Inr sample_address"
    by code_simp
  from facts installed after
  have "fst (nostrPubkeyToBitcoinAddress sample_library sample_pubkey mainnet main)
          = fst (nostrPubkeyToBitcoinAddress sample_library sample_pubkey mainnet ?s)"
    by blast
  with v have w: "fst (nostrPubkeyToBitcoinAddress sample_library sample_pubkey mainnet ?s) = Inr sample_address"
    by simp
  from facts have u: "snd (nostrPubkeyToBitcoinAddress sample_library sample_pubkey mainnet main) = main"
    by blast
  from installed after v w u show ?thesis by simp
qed

text \<open>
  Claim C7 as stated fails: the result depends on more than the key and the network.
  In a module that has just been loaded, where nothing has installed the ECC backend,
  the generator's key gives the empty string; after one call of the builder, which
  installs the backend, the same key and network give the key's address.
\<close>

theorem address_deterministic_counterexample:
  "fst (nostrPubkeyToBitcoinAddress sample_library sample_pubkey mainnet fresh) = Inr [] \<and>
   fst (nostrPubkeyToBitcoinAddress sample_library sample_pubkey mainnet
          (snd (createBitcoinTransaction sample_library sample_key sample_recipient 50000
                  [sample_utxo 100000] 10 mainnet fresh)))
     = Inr ''bc1pmfr3p9j00pfxjh0zmgp99y8zftmd3s5pmedqhyptwy6lm87hf5sspknck9''"
  by code_simp




section \<open>The two modules\<close>




section \<open>The round trip of the unit conversions\<close>

text \<open>
  Claim C9, as amended.  For every amount of \<open>k\<close> satoshis with \<open>0 \<le> k < 2^51\<close>
  (the amounts with at most 8 decimal places up to 22517998.13685247 BTC, which
  is more than the 21 million BTC that can exist), reading the decimal amount
  \<open>k / 10^8\<close> as a number and converting it with \<open>btcToSats\<close> gives exactly \<open>k\<close>, and
  \<open>satsToBTC\<close> of that result is a decimal string that denotes exactly \<open>k / 10^8\<close>.
\<close>

theorem unit_conversion_round_trip:
  assumes "0 \<le> k" and "k < 2 ^ 51"
  shows "btcToSats (round_to_double (of_int k / 10 ^ 8)) = Finite (of_int k) \<and>
         decimal_value (satsToBTC toString (btcToSats (round_to_double (of_int k / 10 ^ 8))))
           = of_int k / 10 ^ 8"
proof (cases "k = 0")
  case True
  have zero: "round_to_double 0 = Finite 0" by (simp add: round_to_double_def)
  have "decimal_value (toFixed toString (Finite 0) 8) = of_int \<lfloor>(0::rat) * 10 ^ 8 + 1 / 2\<rfloor> / 10 ^ 8"
    by (intro toFixed_8_value) simp_all
  moreover have "\<lfloor>(0::rat) * 10 ^ 8 + 1 / 2\<rfloor> = 0" by (intro floor_unique) simp_all
  ultimately have "decimal_value (toFixed toString (Finite 0) 8) = 0" by (simp only: of_int_0 div_0)
  moreover have "Math_round (Finite 0) = Finite 0"
    using \<open>\<lfloor>(0::rat) * 10 ^ 8 + 1 / 2\<rfloor> = 0\<close> by (simp add: Math_round_def)
  ultimately have "Math_round (Finite 0) = Finite 0 \<and> decimal_value (toFixed toString (Finite 0) 8) = 0"
    by simp
  with True zero show ?thesis
    by (simp add: btcToSats_def satsToBTC_def js_divide_def)
next
  case False
  with assms have "1 \<le> k" by simp
  from round_trip_positive [OF this assms(2)] obtain d where
    d: "round_to_double (of_int k / 10 ^ 8) = Finite d" and "0 < d" "d < 10 ^ 21"
    and fixed: "\<lfloor>d * 10 ^ 8 + 1 / 2\<rfloor> = k"
    and round: "Math_round (round_to_double (d * 100000000)) = Finite (of_int k)"
    by blast
  then have "decimal_value (toFixed toString (Finite d) 8) = of_int k / 10 ^ 8"
    using toFixed_8_value [of d toString] by simp
  with d round show ?thesis
    by (simp add: btcToSats_def satsToBTC_def js_divide_def)
qed

text \<open>The example of the specification: 0.00012345 maps to 12345 and back to \<open>0.00012345\<close>.\<close>

theorem unit_conversion_round_trip_witness:
  "(0::int) \<le> 12345 \<and> (12345::int) < 2 ^ 51 \<and>
   btcToSats (round_to_double (of_int 12345 / 10 ^ 8)) = Finite (of_int 12345) \<and>
   satsToBTC (\<lambda>v. []) (btcToSats (round_to_double (of_int 12345 / 10 ^ 8))) = ''0.00012345'' \<and>
   decimal_value ''0.00012345'' = of_int 12345 / 10 ^ 8"
proof -
  have range: "(0::int) \<le> 12345" "(12345::int) < 2 ^ 51" by simp_all
  have printed: "satsToBTC (\<lambda>v. []) (Finite (of_int 12345)) = ''0.00012345''"
    by code_simp
  note round_trip = unit_conversion_round_trip [OF range, of "\<lambda>v. []"]
  from round_trip
  have sats: "btcToSats (round_to_double (of_int 12345 / 10 ^ 8)) = Finite (of_int 12345)"
    by (rule conjunct1)
  from round_trip
  have dec: "decimal_value (satsToBTC (\<lambda>v. []) (btcToSats (round_to_double (of_int 12345 / 10 ^ 8))))
               = of_int 12345 / 10 ^ 8"
    by (rule conjunct2)
  from printed sats
  have str: "satsToBTC (\<lambda>v. []) (btcToSats (round_to_double (of_int 12345 / 10 ^ 8))) = ''0.00012345''"
    by (simp only:)
  from dec str have "decimal_value ''0.00012345'' = of_int 12345 / 10 ^ 8"
    by (simp only:)
  with range sats str show ?thesis
    by (intro conjI)
qed

text \<open>
  Claim C9 as stated fails for large amounts: 39300924.82748409 has 8 decimal places,
  the nearest double times \<open>100000000\<close> is 3930092482748409.5, and \<open>Math.round\<close> makes
  it 3930092482748410 satoshis, which print as \<open>39300924.82748410\<close>.
\<close>

theorem unit_conversion_round_trip_counterexample:
  "btcToSats (round_to_double (3930092482748409 / 10 ^ 8)) = Finite 3930092482748410 \<and>
   satsToBTC (\<lambda>v. []) (btcToSats (round_to_double (3930092482748409 / 10 ^ 8)))
     = ''39300924.82748410'' \<and>
   (3930092482748410::rat) \<noteq> 3930092482748409"
  by code_simp

end
